theory Spec2Isabelle
  imports Main
begin

section \<open>The room server: data model\<close>

text \<open>
  The development embeds the complete socket server of the repository (the source file
  with the capacity check, the \<open>leave-room\<close> handler and the hourly sweep). Time is the
  value of \<open>new Date()\<close> in milliseconds, read once per incoming event and passed to the
  handlers as \<open>now\<close>. Diagram nodes, edges and every relayed payload are opaque to the
  server; they are carried as strings.
\<close>

type_synonym socket_id = string
type_synonym room_id = string

text \<open>JavaScript truthiness of a string: only the empty string is falsy.\<close>

definition truthy :: "string \<Rightarrow> bool" where
  "truthy s = (s \<noteq> [])"

subsection \<open>The JavaScript \<open>Map\<close>\<close>

text \<open>
  A \<open>Map\<close> iterates in insertion order, \<open>set\<close> on a present key replaces the value where
  it stands and on a new key appends, \<open>delete\<close> of an absent key does nothing: an
  association list, first entry first.
\<close>

type_synonym ('k, 'v) jsmap = "('k \<times> 'v) list"

fun map_get :: "('k, 'v) jsmap \<Rightarrow> 'k \<Rightarrow> 'v option" where
  "map_get [] k = None"
| "map_get ((k', v) # m) k = (if k' = k then Some v else map_get m k)"

definition map_has :: "('k, 'v) jsmap \<Rightarrow> 'k \<Rightarrow> bool" where
  "map_has m k = (map_get m k \<noteq> None)"

fun map_set :: "'k \<Rightarrow> 'v \<Rightarrow> ('k, 'v) jsmap \<Rightarrow> ('k, 'v) jsmap" where
  "map_set k v [] = [(k, v)]"
| "map_set k v ((k', v') # m) = (if k' = k then (k, v) # m else (k', v') # map_set k v m)"

fun map_delete :: "'k \<Rightarrow> ('k, 'v) jsmap \<Rightarrow> ('k, 'v) jsmap" where
  "map_delete k [] = []"
| "map_delete k ((k', v') # m) = (if k' = k then map_delete k m else (k', v') # map_delete k m)"

definition map_keys :: "('k, 'v) jsmap \<Rightarrow> 'k list" where
  "map_keys m = map fst m"

definition map_values :: "('k, 'v) jsmap \<Rightarrow> 'v list" where
  "map_values m = map snd m"

definition map_size :: "('k, 'v) jsmap \<Rightarrow> nat" where
  "map_size m = length m"

subsection \<open>Participants, rooms, sockets\<close>

record participant =
  uid :: socket_id
  username :: string
  joinedAt :: int
  isOwner :: bool
  videoEnabled :: bool
  audioEnabled :: bool
  lastSeen :: int

record room_settings =
  maxUsers :: int
  allowScreenShare :: bool
  allowRecording :: bool

record room =
  nodes :: "string list"
  edges :: "string list"
  users :: "(socket_id, participant) jsmap"
  owner :: socket_id
  videoUsers :: "(socket_id, participant) jsmap"
  created :: int
  settings :: room_settings

text \<open>
  What the server keeps on a socket object: the properties \<open>socket.roomId\<close> and
  \<open>socket.username\<close> (undefined until a join sets them), and the transport rooms the
  socket is joined to (\<open>socket.join\<close>, \<open>socket.leave\<close>). The transport joins every
  socket to the room named by its own id when it connects.
\<close>

record socket =
  sock_roomId :: "room_id option"
  sock_username :: "string option"
  sock_rooms :: "string set"

text \<open>
  The process state: the global \<open>rooms\<close> map, the live sockets, and the environment's
  \<open>MAX_USERS_PER_ROOM\<close> as \<open>parseInt\<close> reads it (\<open>None\<close> is \<open>NaN\<close>: unset or not a
  number).
\<close>

record server =
  rooms :: "(room_id, room) jsmap"
  sockets :: "(socket_id, socket) jsmap"
  envMaxUsers :: "int option"

subsection \<open>Events\<close>

datatype signal = Offer | Answer | IceCandidate

text \<open>Incoming socket events with their payload fields.\<close>

datatype event =
    JoinRoom room_id string bool
  | JoinVideoRoom room_id string bool
  | Signal signal string string
  | MediaToggle "bool option" "bool option"
  | StartScreenShare
  | StopScreenShare
  | SendMessage string
  | StartRecording
  | StopRecording
  | UpdateDiagram "string list option" "string list option"
  | Draw string
  | Clear
  | TransferOwnership socket_id
  | LeaveVideoRoom
  | LeaveRoom
  | Disconnect

text \<open>Outgoing events with their payload fields.\<close>

datatype message =
    EvError string
  | EvRoomState "string list" "string list" "participant list" bool room_settings
  | EvUserJoined string socket_id "participant list"
  | EvUsersUpdated "participant list"
  | EvVideoRoomState "participant list" bool
  | EvVideoUserJoined socket_id string bool "participant list"
  | EvSignal signal string socket_id "string option"
  | EvUserMediaUpdate socket_id bool bool string
  | EvScreenShareStarted socket_id "string option"
  | EvScreenShareStopped socket_id
  | EvNewMessage int "string option" socket_id string int
  | EvRecordingStarted "string option"
  | EvRecordingStopped
  | EvUpdateDiagram "string list option" "string list option"
  | EvDraw string
  | EvClear
  | EvOwnershipTransferred socket_id "participant list"
  | EvVideoUserLeft socket_id "participant list"
  | EvUserLeft socket_id "string option" "participant list"

text \<open>
  The three ways the handlers address an outgoing event: \<open>socket.emit\<close> (the handling
  socket itself), \<open>socket.to(r).emit\<close> (the transport room \<open>r\<close>, the handling socket
  excepted) and \<open>io.to(r).emit\<close> (the transport room \<open>r\<close>).
\<close>

datatype address = SocketEmit | SocketTo string | IoTo string

type_synonym out = "address \<times> message"

fun is_error :: "message \<Rightarrow> bool" where
  "is_error (EvError _) = True"
| "is_error _ = False"

text \<open>
  The sockets an addressed event reaches, in a given state of the transport, by the
  rules of the transport's rooms. \<open>socket.emit\<close> goes to the handling socket.
  \<open>io.to(r)\<close> goes to every socket joined to \<open>r\<close>. \<open>socket.to(r)\<close> goes to every socket
  joined to \<open>r\<close> except those joined to the room named by the handling socket's id: as a
  rule that room holds the handling socket alone (the source's comments read
  "Notify others in the room", "Broadcast to all other users in the room"), but a
  \<open>join-room\<close> may name it, and a socket may have left its own.
\<close>

fun recipients :: "server \<Rightarrow> socket_id \<Rightarrow> address \<Rightarrow> socket_id list" where
  "recipients st sid SocketEmit = [s \<leftarrow> map_keys (sockets st). s = sid]"
| "recipients st sid (SocketTo r) =
     map fst [p \<leftarrow> sockets st. r \<in> sock_rooms (snd p) \<and> sid \<notin> sock_rooms (snd p)]"
| "recipients st sid (IoTo r) = map fst [p \<leftarrow> sockets st. r \<in> sock_rooms (snd p)]"

section \<open>The handlers\<close>

text \<open>\<open>parseInt(process.env.MAX_USERS_PER_ROOM) || 50\<close>: \<open>NaN\<close> and \<open>0\<close> are falsy.\<close>

definition default_max_users :: "int option \<Rightarrow> int" where
  "default_max_users e = (case e of None \<Rightarrow> 50 | Some n \<Rightarrow> if n = 0 then 50 else n)"

definition new_room :: "int \<Rightarrow> socket_id \<Rightarrow> int option \<Rightarrow> room" where
  "new_room now sid e =
     \<lparr>nodes = [], edges = [], users = [], owner = sid, videoUsers = [], created = now,
      settings = \<lparr>maxUsers = default_max_users e, allowScreenShare = True,
                  allowRecording = True\<rparr>\<rparr>"

text \<open>\<open>if (!rooms.has(roomId)) rooms.set(roomId, {...})\<close>\<close>

definition init_room :: "int \<Rightarrow> socket_id \<Rightarrow> room_id \<Rightarrow> server \<Rightarrow> server" where
  "init_room now sid roomId st =
     (if \<not> map_has (rooms st) roomId
      then st\<lparr>rooms := map_set roomId (new_room now sid (envMaxUsers st)) (rooms st)\<rparr>
      else st)"

definition new_participant :: "int \<Rightarrow> socket_id \<Rightarrow> string \<Rightarrow> bool \<Rightarrow> participant" where
  "new_participant now sid uname flag =
     \<lparr>uid = sid, username = uname, joinedAt = now, isOwner = flag, videoEnabled = True,
      audioEnabled = True, lastSeen = now\<rparr>"

text \<open>
  \<open>join-room\<close>. The payload is destructured with \<open>isOwner = false\<close> as the default. The
  \<open>catch\<close> branch of the handler is not reached on these inputs: nothing in the body
  throws once the payload is an object with string fields.
\<close>

definition join_room ::
  "int \<Rightarrow> socket_id \<Rightarrow> socket \<Rightarrow> room_id \<Rightarrow> string \<Rightarrow> bool \<Rightarrow> server \<Rightarrow> server \<times> out list" where
  "join_room now sid sk roomId uname isOwnerArg st =
     (if \<not> truthy roomId \<or> \<not> truthy uname
      then (st, [(SocketEmit, EvError ''Room ID and username are required'')])
      else
        let left = (case sock_roomId sk of
                      None \<Rightarrow> sock_rooms sk
                    | Some old \<Rightarrow> if truthy old then sock_rooms sk - {old} else sock_rooms sk);
            sk' = sk\<lparr>sock_roomId := Some roomId, sock_username := Some uname,
                     sock_rooms := insert roomId left\<rparr>;
            st1 = init_room now sid roomId (st\<lparr>sockets := map_set sid sk' (sockets st)\<rparr>)
        in case map_get (rooms st1) roomId of
             None \<Rightarrow> (st1, [])
           | Some room \<Rightarrow>
               if int (map_size (users room)) \<ge> maxUsers (settings room)
               then (st1, [(SocketEmit, EvError ''Room is full'')])
               else
                 let room' = room\<lparr>users := map_set sid
                               (new_participant now sid uname (isOwnerArg \<or> owner room = sid))
                               (users room)\<rparr>;
                     us = map_values (users room')
                 in (st1\<lparr>rooms := map_set roomId room' (rooms st1)\<rparr>,
                     [(SocketEmit, EvRoomState (nodes room') (edges room') us
                                     (owner room' = sid) (settings room')),
                      (SocketTo roomId, EvUserJoined uname sid us),
                      (IoTo roomId, EvUsersUpdated us)]))"

text \<open>\<open>join-video-room\<close>: no validation, no leaving of the previous room.\<close>

definition join_video_room ::
  "int \<Rightarrow> socket_id \<Rightarrow> socket \<Rightarrow> room_id \<Rightarrow> string \<Rightarrow> bool \<Rightarrow> server \<Rightarrow> server \<times> out list" where
  "join_video_room now sid sk roomId uname isOwnerArg st =
     (let sk' = sk\<lparr>sock_roomId := Some roomId, sock_username := Some uname,
                   sock_rooms := insert roomId (sock_rooms sk)\<rparr>;
          st1 = init_room now sid roomId (st\<lparr>sockets := map_set sid sk' (sockets st)\<rparr>)
      in case map_get (rooms st1) roomId of
           None \<Rightarrow> (st1, [])
         | Some room \<Rightarrow>
             if int (map_size (videoUsers room)) \<ge> maxUsers (settings room)
             then (st1, [(SocketEmit, EvError ''Video room is full'')])
             else
               let room' = room\<lparr>videoUsers := map_set sid
                             (new_participant now sid uname (isOwnerArg \<or> owner room = sid))
                             (videoUsers room)\<rparr>;
                   vs = map_values (videoUsers room')
               in (st1\<lparr>rooms := map_set roomId room' (rooms st1)\<rparr>,
                   [(SocketEmit, EvVideoRoomState vs (owner room' = sid)),
                    (SocketTo roomId, EvVideoUserJoined sid uname (owner room' = sid) vs)]))"

text \<open>\<open>offer\<close>, \<open>answer\<close>, \<open>ice-candidate\<close>: one addressed send, nothing else.\<close>

definition relay ::
  "socket_id \<Rightarrow> socket \<Rightarrow> signal \<Rightarrow> string \<Rightarrow> string \<Rightarrow> server \<Rightarrow> server \<times> out list" where
  "relay sid sk kind target payload st =
     (st, [(SocketTo target, EvSignal kind payload sid (sock_username sk))])"

text \<open>
  The guard \<open>socket.roomId && rooms.has(socket.roomId)\<close> followed by
  \<open>rooms.get(socket.roomId)\<close>: the room the socket is associated with, if any.
\<close>

definition current_room :: "socket \<Rightarrow> server \<Rightarrow> (room_id \<times> room) option" where
  "current_room sk st =
     (case sock_roomId sk of
        None \<Rightarrow> None
      | Some rid \<Rightarrow>
          if truthy rid
          then (case map_get (rooms st) rid of None \<Rightarrow> None | Some room \<Rightarrow> Some (rid, room))
          else None)"

text \<open>The guard \<open>if (socket.roomId)\<close> of the handlers that only forward.\<close>

definition current_room_id :: "socket \<Rightarrow> room_id option" where
  "current_room_id sk =
     (case sock_roomId sk of
        None \<Rightarrow> None
      | Some rid \<Rightarrow> if truthy rid then Some rid else None)"

definition media_toggle ::
  "socket_id \<Rightarrow> socket \<Rightarrow> bool option \<Rightarrow> bool option \<Rightarrow> server \<Rightarrow> server \<times> out list" where
  "media_toggle sid sk video audio st =
     (case current_room sk st of
        None \<Rightarrow> (st, [])
      | Some (rid, room) \<Rightarrow>
          (case map_get (videoUsers room) sid of
             None \<Rightarrow> (st, [])
           | Some user \<Rightarrow>
               let user1 = (case video of None \<Rightarrow> user | Some v \<Rightarrow> user\<lparr>videoEnabled := v\<rparr>);
                   user2 = (case audio of None \<Rightarrow> user1 | Some a \<Rightarrow> user1\<lparr>audioEnabled := a\<rparr>);
                   room' = room\<lparr>videoUsers := map_set sid user2 (videoUsers room)\<rparr>
               in (st\<lparr>rooms := map_set rid room' (rooms st)\<rparr>,
                   [(SocketTo rid, EvUserMediaUpdate sid (videoEnabled user2)
                                     (audioEnabled user2) (username user2))])))"

definition start_screen_share :: "socket_id \<Rightarrow> socket \<Rightarrow> server \<Rightarrow> server \<times> out list" where
  "start_screen_share sid sk st =
     (case current_room_id sk of
        None \<Rightarrow> (st, [])
      | Some rid \<Rightarrow> (st, [(SocketTo rid, EvScreenShareStarted sid (sock_username sk))]))"

definition stop_screen_share :: "socket_id \<Rightarrow> socket \<Rightarrow> server \<Rightarrow> server \<times> out list" where
  "stop_screen_share sid sk st =
     (case current_room_id sk of
        None \<Rightarrow> (st, [])
      | Some rid \<Rightarrow> (st, [(SocketTo rid, EvScreenShareStopped sid)]))"

text \<open>The message id is \<open>Date.now().toString()\<close>, kept as the number it prints.\<close>

definition send_message ::
  "int \<Rightarrow> socket_id \<Rightarrow> socket \<Rightarrow> string \<Rightarrow> server \<Rightarrow> server \<times> out list" where
  "send_message now sid sk txt st =
     (case current_room_id sk of
        None \<Rightarrow> (st, [])
      | Some rid \<Rightarrow> (st, [(IoTo rid, EvNewMessage now (sock_username sk) sid txt now)]))"

definition start_recording :: "socket_id \<Rightarrow> socket \<Rightarrow> server \<Rightarrow> server \<times> out list" where
  "start_recording sid sk st =
     (case current_room sk st of
        None \<Rightarrow> (st, [])
      | Some (rid, room) \<Rightarrow>
          if owner room = sid \<and> allowRecording (settings room)
          then (st, [(IoTo rid, EvRecordingStarted (sock_username sk))])
          else (st, []))"

definition stop_recording :: "socket_id \<Rightarrow> socket \<Rightarrow> server \<Rightarrow> server \<times> out list" where
  "stop_recording sid sk st =
     (case current_room sk st of
        None \<Rightarrow> (st, [])
      | Some (rid, room) \<Rightarrow>
          if owner room = sid then (st, [(IoTo rid, EvRecordingStopped)]) else (st, []))"

text \<open>
  \<open>update-diagram\<close>: \<open>room.nodes = data.nodes || room.nodes\<close>, and the same for the
  edges. A field of the payload is an array or is omitted; every array, the empty one
  too, is truthy.
\<close>

definition update_diagram ::
  "socket_id \<Rightarrow> socket \<Rightarrow> string list option \<Rightarrow> string list option \<Rightarrow> server
     \<Rightarrow> server \<times> out list" where
  "update_diagram sid sk dnodes dedges st =
     (case current_room sk st of
        None \<Rightarrow> (st, [])
      | Some (rid, room) \<Rightarrow>
          let room' = room\<lparr>nodes := (case dnodes of None \<Rightarrow> nodes room | Some ns \<Rightarrow> ns),
                           edges := (case dedges of None \<Rightarrow> edges room | Some es \<Rightarrow> es)\<rparr>
          in (st\<lparr>rooms := map_set rid room' (rooms st)\<rparr>,
              [(SocketTo rid, EvUpdateDiagram dnodes dedges)]))"

definition draw :: "socket_id \<Rightarrow> socket \<Rightarrow> string \<Rightarrow> server \<Rightarrow> server \<times> out list" where
  "draw sid sk d st =
     (case current_room_id sk of
        None \<Rightarrow> (st, [])
      | Some rid \<Rightarrow> (st, [(SocketTo rid, EvDraw d)]))"

definition clear :: "socket_id \<Rightarrow> socket \<Rightarrow> server \<Rightarrow> server \<times> out list" where
  "clear sid sk st =
     (case current_room_id sk of
        None \<Rightarrow> (st, [])
      | Some rid \<Rightarrow> (st, [(SocketTo rid, EvClear)]))"

text \<open>\<open>m.forEach((user, userId) => { user.isOwner = userId === newOwner })\<close>\<close>

definition set_owner_flags ::
  "socket_id \<Rightarrow> (socket_id, participant) jsmap \<Rightarrow> (socket_id, participant) jsmap" where
  "set_owner_flags newOwner m = map (\<lambda>(userId, user). (userId, user\<lparr>isOwner := (userId = newOwner)\<rparr>)) m"

definition transfer_ownership ::
  "socket_id \<Rightarrow> socket \<Rightarrow> socket_id \<Rightarrow> server \<Rightarrow> server \<times> out list" where
  "transfer_ownership sid sk newOwnerId st =
     (case current_room sk st of
        None \<Rightarrow> (st, [])
      | Some (rid, room) \<Rightarrow>
          if owner room = sid
          then
            let room' = room\<lparr>owner := newOwnerId,
                             users := set_owner_flags newOwnerId (users room),
                             videoUsers := set_owner_flags newOwnerId (videoUsers room)\<rparr>
            in (st\<lparr>rooms := map_set rid room' (rooms st)\<rparr>,
                [(IoTo rid, EvOwnershipTransferred newOwnerId (map_values (users room')))])
          else (st, []))"

definition leave_video_room :: "socket_id \<Rightarrow> socket \<Rightarrow> server \<Rightarrow> server \<times> out list" where
  "leave_video_room sid sk st =
     (case current_room sk st of
        None \<Rightarrow> (st, [])
      | Some (rid, room) \<Rightarrow>
          let room' = room\<lparr>videoUsers := map_delete sid (videoUsers room)\<rparr>
          in (st\<lparr>rooms := map_set rid room' (rooms st)\<rparr>,
              [(SocketTo rid, EvVideoUserLeft sid (map_values (videoUsers room')))]))"

text \<open>
  The body that \<open>leave-room\<close> and \<open>disconnect\<close> share word for word: removal from both
  rosters, the hand-over of ownership to \<open>Array.from(room.users.keys())[0]\<close> when the
  owner went and somebody is left, then the deletion of the empty room or the notices to
  the others. The first key is read only under \<open>room.users.size > 0\<close>.
\<close>

definition handover :: "socket_id \<Rightarrow> room_id \<Rightarrow> room \<Rightarrow> room \<times> out list" where
  "handover sid rid room =
     (case users room of
        [] \<Rightarrow> (room, [])
      | (newOwner, _) # _ \<Rightarrow>
          if owner room = sid
          then
            let room' = room\<lparr>owner := newOwner,
                             users := set_owner_flags newOwner (users room),
                             videoUsers := set_owner_flags newOwner (videoUsers room)\<rparr>
            in (room', [(IoTo rid, EvOwnershipTransferred newOwner (map_values (users room')))])
          else (room, []))"

definition depart :: "socket_id \<Rightarrow> socket \<Rightarrow> server \<Rightarrow> server \<times> out list" where
  "depart sid sk st =
     (case current_room sk st of
        None \<Rightarrow> (st, [])
      | Some (rid, room) \<Rightarrow>
          let room1 = room\<lparr>users := map_delete sid (users room),
                           videoUsers := map_delete sid (videoUsers room)\<rparr>;
              (room2, out1) = handover sid rid room1
          in if map_size (users room2) = 0
             then (st\<lparr>rooms := map_delete rid (rooms st)\<rparr>, out1)
             else (st\<lparr>rooms := map_set rid room2 (rooms st)\<rparr>,
                   out1 @
                   [(SocketTo rid, EvUserLeft sid (sock_username sk) (map_values (users room2))),
                    (SocketTo rid, EvVideoUserLeft sid (map_values (videoUsers room2))),
                    (IoTo rid, EvUsersUpdated (map_values (users room2)))]))"

definition leave_room :: "socket_id \<Rightarrow> socket \<Rightarrow> server \<Rightarrow> server \<times> out list" where
  "leave_room sid sk st = depart sid sk st"

text \<open>
  \<open>disconnect\<close>: the handler runs on the closed socket, which the transport then
  forgets.
\<close>

definition disconnect :: "socket_id \<Rightarrow> socket \<Rightarrow> server \<Rightarrow> server \<times> out list" where
  "disconnect sid sk st =
     (let (st', out) = depart sid sk st
      in (st'\<lparr>sockets := map_delete sid (sockets st')\<rparr>, out))"

fun on_event :: "int \<Rightarrow> socket_id \<Rightarrow> socket \<Rightarrow> event \<Rightarrow> server \<Rightarrow> server \<times> out list" where
  "on_event now sid sk (JoinRoom r u b) st = join_room now sid sk r u b st"
| "on_event now sid sk (JoinVideoRoom r u b) st = join_video_room now sid sk r u b st"
| "on_event now sid sk (Signal k t p) st = relay sid sk k t p st"
| "on_event now sid sk (MediaToggle v a) st = media_toggle sid sk v a st"
| "on_event now sid sk StartScreenShare st = start_screen_share sid sk st"
| "on_event now sid sk StopScreenShare st = stop_screen_share sid sk st"
| "on_event now sid sk (SendMessage t) st = send_message now sid sk t st"
| "on_event now sid sk StartRecording st = start_recording sid sk st"
| "on_event now sid sk StopRecording st = stop_recording sid sk st"
| "on_event now sid sk (UpdateDiagram ns es) st = update_diagram sid sk ns es st"
| "on_event now sid sk (Draw d) st = draw sid sk d st"
| "on_event now sid sk Clear st = clear sid sk st"
| "on_event now sid sk (TransferOwnership n) st = transfer_ownership sid sk n st"
| "on_event now sid sk LeaveVideoRoom st = leave_video_room sid sk st"
| "on_event now sid sk LeaveRoom st = leave_room sid sk st"
| "on_event now sid sk Disconnect st = disconnect sid sk st"

text \<open>An event arrives on a live socket; the handlers are registered per connection.\<close>

definition handle :: "int \<Rightarrow> socket_id \<Rightarrow> event \<Rightarrow> server \<Rightarrow> server \<times> out list" where
  "handle now sid ev st =
     (case map_get (sockets st) sid of
        None \<Rightarrow> (st, [])
      | Some sk \<Rightarrow> on_event now sid sk ev st)"

subsection \<open>Connections, the HTTP deletion and the hourly sweep\<close>

definition connect :: "socket_id \<Rightarrow> server \<Rightarrow> server" where
  "connect sid st =
     (if map_has (sockets st) sid then st
      else st\<lparr>sockets := map_set sid
                \<lparr>sock_roomId = None, sock_username = None, sock_rooms = {sid}\<rparr> (sockets st)\<rparr>)"

text \<open>\<open>DELETE /api/rooms/:roomId\<close>\<close>

definition http_delete_room :: "room_id \<Rightarrow> server \<Rightarrow> server" where
  "http_delete_room rid st =
     (if map_has (rooms st) rid then st\<lparr>rooms := map_delete rid (rooms st)\<rparr> else st)"

definition MAX_ROOM_AGE :: int where
  "MAX_ROOM_AGE = 24 * 60 * 60 * 1000"

definition sweep :: "int \<Rightarrow> server \<Rightarrow> server" where
  "sweep now st =
     st\<lparr>rooms := [p \<leftarrow> rooms st.
                    \<not> (now - created (snd p) > MAX_ROOM_AGE \<and> map_size (users (snd p)) = 0)]\<rparr>"

datatype operation =
    Connect socket_id
  | Event socket_id event
  | HttpDeleteRoom room_id
  | Sweep

fun step :: "int \<Rightarrow> operation \<Rightarrow> server \<Rightarrow> server \<times> out list" where
  "step now (Connect sid) st = (connect sid st, [])"
| "step now (Event sid ev) st = handle now sid ev st"
| "step now (HttpDeleteRoom rid) st = (http_delete_room rid st, [])"
| "step now Sweep st = (sweep now st, [])"

definition run :: "int \<Rightarrow> operation list \<Rightarrow> server \<Rightarrow> server" where
  "run now ops st = foldl (\<lambda>s opn. fst (step now opn s)) st ops"

definition init :: "int option \<Rightarrow> server" where
  "init e = \<lparr>rooms = [], sockets = [], envMaxUsers = e\<rparr>"

section \<open>Properties of the registry\<close>

text \<open>
  The owner is in the roster: every room of the registry has a general roster that is not
  empty and that holds its owner as a key.
\<close>

definition room_ok :: "room \<Rightarrow> bool" where
  "room_ok room = (users room \<noteq> [] \<and> owner room \<in> set (map_keys (users room)))"

definition all_rooms :: "(room \<Rightarrow> bool) \<Rightarrow> server \<Rightarrow> bool" where
  "all_rooms P st = list_all (\<lambda>(rid, room). P room) (rooms st)"

definition registry_ok :: "server \<Rightarrow> bool" where
  "registry_ok st = all_rooms room_ok st"

text \<open>
  The stored flag is the comparison: an entry is kept under its own id and its
  \<open>isOwner\<close> says whether that id is the room's owner, in both rosters.
\<close>

definition flag_ok :: "socket_id \<Rightarrow> socket_id \<times> participant \<Rightarrow> bool" where
  "flag_ok own e = (uid (snd e) = fst e \<and> isOwner (snd e) = (uid (snd e) = own))"

definition flags_ok_room :: "room \<Rightarrow> bool" where
  "flags_ok_room room =
     (list_all (flag_ok (owner room)) (users room) \<and>
      list_all (flag_ok (owner room)) (videoUsers room))"

definition flags_ok :: "server \<Rightarrow> bool" where
  "flags_ok st = all_rooms flags_ok_room st"

text \<open>
  The join that makes an owner of somebody else: a \<open>join-room\<close> or \<open>join-video-room\<close>
  from a live connection that supplies \<open>isOwner = true\<close> for a room that exists and is
  owned by another id, and that is accepted (no error is sent back).
\<close>

fun join_request :: "operation \<Rightarrow> (socket_id \<times> room_id \<times> bool) option" where
  "join_request (Event sid (JoinRoom rid u b)) = Some (sid, rid, b)"
| "join_request (Event sid (JoinVideoRoom rid u b)) = Some (sid, rid, b)"
| "join_request _ = None"

definition foreign_owner_join :: "int \<Rightarrow> operation \<Rightarrow> server \<Rightarrow> bool" where
  "foreign_owner_join now opn st =
     (case join_request opn of
        None \<Rightarrow> False
      | Some (sid, rid, b) \<Rightarrow>
          b \<and> map_has (sockets st) sid
          \<and> (case map_get (rooms st) rid of None \<Rightarrow> False | Some room \<Rightarrow> owner room \<noteq> sid)
          \<and> list_all (\<lambda>x. \<not> is_error (snd x)) (snd (step now opn st)))"

section \<open>Example runs\<close>

text \<open>States the server reaches from the empty registry, used to instantiate the theorems.\<close>

definition ann :: participant where
  "ann = \<lparr>uid = ''A'', username = ''ann'', joinedAt = 0, isOwner = True, videoEnabled = True,
          audioEnabled = True, lastSeen = 0\<rparr>"

definition bob :: participant where
  "bob = \<lparr>uid = ''B'', username = ''bob'', joinedAt = 0, isOwner = False, videoEnabled = True,
          audioEnabled = True, lastSeen = 0\<rparr>"

definition idle_socket :: "socket_id \<Rightarrow> socket" where
  "idle_socket sid = \<lparr>sock_roomId = None, sock_username = None, sock_rooms = {sid}\<rparr>"

definition joined_socket :: "socket_id \<Rightarrow> room_id \<Rightarrow> string \<Rightarrow> socket" where
  "joined_socket sid rid uname =
     \<lparr>sock_roomId = Some rid, sock_username = Some uname, sock_rooms = {rid, sid}\<rparr>"

definition room_of ::
  "string list \<Rightarrow> string list \<Rightarrow> (socket_id, participant) jsmap \<Rightarrow> int \<Rightarrow> room" where
  "room_of ns es us cap =
     \<lparr>nodes = ns, edges = es, users = us, owner = ''A'', videoUsers = [], created = 0,
      settings = \<lparr>maxUsers = cap, allowScreenShare = True, allowRecording = True\<rparr>\<rparr>"

definition solo_state :: server where
  "solo_state = run 0 [Connect ''A'', Event ''A'' (JoinRoom ''r1'' ''ann'' False)] (init None)"

definition full_room_state :: server where
  "full_room_state =
     run 0 [Connect ''A'', Connect ''B'', Event ''A'' (JoinRoom ''r1'' ''ann'' False)]
       (init (Some 1))"

definition two_in_room :: server where
  "two_in_room =
     run 0 [Connect ''A'', Connect ''B'', Event ''A'' (JoinRoom ''r1'' ''ann'' False),
            Event ''B'' (JoinRoom ''r1'' ''bob'' False)] (init None)"

definition drawn_state :: server where
  "drawn_state =
     run 0 [Connect ''A'', Event ''A'' (JoinRoom ''r1'' ''ann'' False),
            Event ''A'' (UpdateDiagram (Some [''n0'']) (Some [''e0'']))] (init None)"




definition carl :: participant where
  "carl = \<lparr>uid = ''C'', username = ''carl'', joinedAt = 0, isOwner = False, videoEnabled = True,
           audioEnabled = True, lastSeen = 0\<rparr>"

definition video_trio_state :: server where
  "video_trio_state =
     run 0 [Connect ''A'', Connect ''B'', Connect ''C'',
            Event ''A'' (JoinRoom ''r1'' ''ann'' False),
            Event ''B'' (JoinRoom ''r1'' ''bob'' False),
            Event ''C'' (JoinRoom ''r1'' ''carl'' False),
            Event ''A'' (JoinVideoRoom ''r1'' ''ann'' False),
            Event ''B'' (JoinVideoRoom ''r1'' ''bob'' False),
            Event ''C'' (JoinVideoRoom ''r1'' ''carl'' False)] (init None)"

definition video_trio_room :: room where
  "video_trio_room =
     (room_of [] [] [(''A'', ann), (''B'', bob), (''C'', carl)] 50)
       \<lparr>videoUsers := [(''A'', ann), (''B'', bob), (''C'', carl)]\<rparr>"

definition waiting_state :: server where
  "waiting_state =
     run 0 [Connect ''A'', Connect ''B'', Event ''A'' (JoinRoom ''r1'' ''ann'' False)] (init None)"

definition connected_state :: server where
  "connected_state = run 0 [Connect ''A''] (init None)"

definition negative_cap_state :: server where
  "negative_cap_state = run 0 [Connect ''A''] (init (Some (- 1)))"

section \<open>Lemmas on maps and handlers\<close>

lemma map_get_set: "map_get (map_set k v m) k' = (if k' = k then Some v else map_get m k')"
  by (induction m) auto

lemma map_get_delete: "map_get (map_delete k m) k' = (if k' = k then None else map_get m k')"
  by (induction m) auto

lemma map_get_mem: "map_get m k = Some v \<Longrightarrow> (k, v) \<in> set m"
  by (induction m) (auto split: if_splits)

lemma map_keys_set: "set (map_keys (map_set k v m)) = insert k (set (map_keys m))"
  by (induction m) (force simp: map_keys_def)+

lemma map_set_twice: "map_set k v' (map_set k v m) = map_set k v' m"
  by (induction m) auto

lemma map_set_nonempty [simp]: "map_set k v m \<noteq> []"
  by (cases m) (auto split: if_splits)

lemma list_all_map_set: "list_all P m \<Longrightarrow> P (k, v) \<Longrightarrow> list_all P (map_set k v m)"
  by (induction m) auto

lemma list_all_map_delete: "list_all P m \<Longrightarrow> list_all P (map_delete k m)"
  by (induction m) auto

lemma list_all_filter: "list_all P m \<Longrightarrow> list_all P (filter Q m)"
  by (induction m) auto

lemma current_room_Some:
  "sock_roomId sk = Some rid \<Longrightarrow> truthy rid \<Longrightarrow> map_get (rooms st) rid = Some room
     \<Longrightarrow> current_room sk st = Some (rid, room)"
  by (simp add: current_room_def)

lemma current_room_SomeD:
  "current_room sk st = Some (rid, room) \<Longrightarrow>
     sock_roomId sk = Some rid \<and> truthy rid \<and> map_get (rooms st) rid = Some room"
  by (auto simp: current_room_def split: option.splits if_splits)

lemma set_owner_flags_eq_Nil [simp]: "(set_owner_flags k m = []) = (m = [])"
  by (simp add: set_owner_flags_def)

lemma map_keys_set_owner_flags [simp]: "map_keys (set_owner_flags k m) = map_keys m"
  by (induction m) (auto simp: set_owner_flags_def map_keys_def)

lemma flags_set_owner_flags:
  "list_all (\<lambda>(key, p). isOwner p = (key = k)) (set_owner_flags k m)"
  by (induction m) (auto simp: set_owner_flags_def)

lemma handover_empty:
  "users room = [] \<Longrightarrow> handover sid rid room = (room, [])"
  by (simp add: handover_def)

lemma handover_owner:
  "users room = (k, u) # rest \<Longrightarrow> owner room = sid \<Longrightarrow>
   handover sid rid room =
     (room\<lparr>owner := k, users := set_owner_flags k (users room),
           videoUsers := set_owner_flags k (videoUsers room)\<rparr>,
      [(IoTo rid, EvOwnershipTransferred k (map_values (set_owner_flags k (users room))))])"
  by (simp add: handover_def Let_def)

lemma handover_other:
  "owner room \<noteq> sid \<Longrightarrow> handover sid rid room = (room, [])"
  by (simp add: handover_def split: list.splits)

subsection \<open>The example runs, evaluated\<close>

lemmas handler_defs = handle_def join_room_def join_video_room_def init_room_def new_room_def
  new_participant_def default_max_users_def map_has_def map_size_def map_values_def map_keys_def
  truthy_def connect_def init_def run_def Let_def current_room_def depart_def handover_def
  leave_room_def disconnect_def set_owner_flags_def transfer_ownership_def relay_def
  update_diagram_def

lemma solo_state_eq:
  "solo_state =
     \<lparr>rooms = [(''r1'', room_of [] [] [(''A'', ann)] 50)],
      sockets = [(''A'', joined_socket ''A'' ''r1'' ''ann'')],
      envMaxUsers = None\<rparr>"
  by (simp add: solo_state_def handler_defs ann_def joined_socket_def room_of_def)

lemma full_room_state_eq:
  "full_room_state =
     \<lparr>rooms = [(''r1'', room_of [] [] [(''A'', ann)] 1)],
      sockets = [(''A'', joined_socket ''A'' ''r1'' ''ann''), (''B'', idle_socket ''B'')],
      envMaxUsers = Some 1\<rparr>"
  by (simp add: full_room_state_def handler_defs ann_def idle_socket_def joined_socket_def
      room_of_def)

lemma two_in_room_eq:
  "two_in_room =
     \<lparr>rooms = [(''r1'', room_of [] [] [(''A'', ann), (''B'', bob)] 50)],
      sockets = [(''A'', joined_socket ''A'' ''r1'' ''ann''),
                 (''B'', joined_socket ''B'' ''r1'' ''bob'')],
      envMaxUsers = None\<rparr>"
  by (simp add: two_in_room_def handler_defs ann_def bob_def joined_socket_def room_of_def)

lemma drawn_state_eq:
  "drawn_state =
     \<lparr>rooms = [(''r1'', room_of [''n0''] [''e0''] [(''A'', ann)] 50)],
      sockets = [(''A'', joined_socket ''A'' ''r1'' ''ann'')],
      envMaxUsers = None\<rparr>"
  by (simp add: drawn_state_def handler_defs ann_def joined_socket_def room_of_def)




lemma video_trio_state_eq:
  "video_trio_state =
     \<lparr>rooms = [(''r1'', video_trio_room)],
      sockets = [(''A'', joined_socket ''A'' ''r1'' ''ann''),
                 (''B'', joined_socket ''B'' ''r1'' ''bob''),
                 (''C'', joined_socket ''C'' ''r1'' ''carl'')],
      envMaxUsers = None\<rparr>"
  by (simp add: video_trio_state_def video_trio_room_def handler_defs ann_def bob_def carl_def
      joined_socket_def room_of_def)

lemma set_owner_flags_map:
  "set_owner_flags k m = map (\<lambda>(key, p). (key, p\<lparr>isOwner := (key = k)\<rparr>)) m"
  by (simp add: set_owner_flags_def)

lemma waiting_state_eq:
  "waiting_state =
     \<lparr>rooms = [(''r1'', room_of [] [] [(''A'', ann)] 50)],
      sockets = [(''A'', joined_socket ''A'' ''r1'' ''ann''), (''B'', idle_socket ''B'')],
      envMaxUsers = None\<rparr>"
  by (simp add: waiting_state_def handler_defs ann_def idle_socket_def joined_socket_def
      room_of_def)

lemma connected_state_eq:
  "connected_state = \<lparr>rooms = [], sockets = [(''A'', idle_socket ''A'')], envMaxUsers = None\<rparr>"
  by (simp add: connected_state_def handler_defs idle_socket_def)

lemma negative_cap_state_eq:
  "negative_cap_state =
     \<lparr>rooms = [], sockets = [(''A'', idle_socket ''A'')], envMaxUsers = Some (- 1)\<rparr>"
  by (simp add: negative_cap_state_def handler_defs idle_socket_def)

lemmas inv_defs = registry_ok_def flags_ok_def all_rooms_def room_ok_def flags_ok_room_def
  flag_ok_def

section \<open>Capacity\<close>

lemma full_join_result:
  assumes "truthy roomId" and "truthy uname"
    and "map_get (rooms st) roomId = Some room"
    and "maxUsers (settings room) \<le> int (map_size (users room))"
  shows "snd (join_room now sid sk roomId uname b st) = [(SocketEmit, EvError ''Room is full'')]"
    and "rooms (fst (join_room now sid sk roomId uname b st)) = rooms st"
    and "set (map_keys (sockets (fst (join_room now sid sk roomId uname b st)))) =
           insert sid (set (map_keys (sockets st)))"
  using assms by (simp_all add: join_room_def Let_def init_room_def map_has_def map_keys_set)

text \<open>
  C3. A room exists and its general roster holds as many entries as its \<open>maxUsers\<close>. A
  \<open>join-room\<close> for it, with a room id and a username, from any connection: the only
  event sent is the error "Room is full", sent with \<open>socket.emit\<close> and so reaching the
  requester alone; the registry is the same afterwards, so the room and its roster of
  that many entries are untouched.
\<close>

theorem join_room_full:
  assumes sk: "map_get (sockets st) sid = Some sk"
    and valid: "truthy roomId" "truthy uname"
    and room: "map_get (rooms st) roomId = Some room"
    and full: "int (map_size (users room)) = maxUsers (settings room)"
  shows "snd (handle now sid (JoinRoom roomId uname b) st) =
           [(SocketEmit, EvError ''Room is full'')]
       \<and> rooms (fst (handle now sid (JoinRoom roomId uname b) st)) = rooms st
       \<and> set (recipients (fst (handle now sid (JoinRoom roomId uname b) st)) sid SocketEmit)
           = {sid}"
proof -
  from full have le: "maxUsers (settings room) \<le> int (map_size (users room))" by simp
  have h: "handle now sid (JoinRoom roomId uname b) st = join_room now sid sk roomId uname b st"
    using sk by (simp add: handle_def)
  show ?thesis
    unfolding h using full_join_result [OF valid room le, of now sid sk b]
    by auto
qed

theorem join_room_full_witness:
  "map_get (rooms full_room_state) ''r1'' = Some (room_of [] [] [(''A'', ann)] 1)
   \<and> int (map_size (users (room_of [] [] [(''A'', ann)] 1)))
       = maxUsers (settings (room_of [] [] [(''A'', ann)] 1))
   \<and> snd (handle 7 ''B'' (JoinRoom ''r1'' ''bob'' False) full_room_state)
       = [(SocketEmit, EvError ''Room is full'')]
   \<and> rooms (fst (handle 7 ''B'' (JoinRoom ''r1'' ''bob'' False) full_room_state))
       = rooms full_room_state
   \<and> set (recipients (fst (handle 7 ''B'' (JoinRoom ''r1'' ''bob'' False) full_room_state))
            ''B'' SocketEmit) = {''B''}"
proof -
  have s: "map_get (sockets full_room_state) ''B'' = Some (idle_socket ''B'')"
    by (simp add: full_room_state_eq)
  have v: "truthy ''r1''" "truthy ''bob''"
    by (simp_all add: truthy_def)
  have r: "map_get (rooms full_room_state) ''r1'' = Some (room_of [] [] [(''A'', ann)] 1)"
    by (simp add: full_room_state_eq)
  have f: "int (map_size (users (room_of [] [] [(''A'', ann)] 1)))
             = maxUsers (settings (room_of [] [] [(''A'', ann)] 1))"
    by (simp add: room_of_def map_size_def)
  from join_room_full [OF s v r f, of 7 False] r f show ?thesis by simp
qed

text \<open>
  C10. The capacity check comes before the insertion and counts the requester's own
  entry: when the roster is exactly at \<open>maxUsers\<close> and the requester is already in it, the
  \<open>join-room\<close> is answered with "Room is full" and the room, the requester's entry
  included, stays as it was.
\<close>

theorem rejoin_full:
  assumes sk: "map_get (sockets st) sid = Some sk"
    and valid: "truthy roomId" "truthy uname"
    and room: "map_get (rooms st) roomId = Some room"
    and full: "int (map_size (users room)) = maxUsers (settings room)"
    and member: "map_get (users room) sid = Some u"
  shows "snd (handle now sid (JoinRoom roomId uname b) st) =
           [(SocketEmit, EvError ''Room is full'')]
       \<and> map_get (rooms (fst (handle now sid (JoinRoom roomId uname b) st))) roomId = Some room
       \<and> map_get (users room) sid = Some u"
proof -
  from full have le: "maxUsers (settings room) \<le> int (map_size (users room))" by simp
  have h: "handle now sid (JoinRoom roomId uname b) st = join_room now sid sk roomId uname b st"
    using sk by (simp add: handle_def)
  show ?thesis
    unfolding h using full_join_result [OF valid room le, of now sid sk b] room member
    by simp
qed

theorem rejoin_full_witness:
  "map_get (users (room_of [] [] [(''A'', ann)] 1)) ''A'' = Some ann
   \<and> snd (handle 7 ''A'' (JoinRoom ''r1'' ''ann2'' False) full_room_state)
       = [(SocketEmit, EvError ''Room is full'')]
   \<and> map_get (rooms (fst (handle 7 ''A'' (JoinRoom ''r1'' ''ann2'' False) full_room_state))) ''r1''
       = Some (room_of [] [] [(''A'', ann)] 1)"
proof -
  have s: "map_get (sockets full_room_state) ''A'' = Some (joined_socket ''A'' ''r1'' ''ann'')"
    by (simp add: full_room_state_eq)
  have v: "truthy ''r1''" "truthy ''ann2''"
    by (simp_all add: truthy_def)
  have r: "map_get (rooms full_room_state) ''r1'' = Some (room_of [] [] [(''A'', ann)] 1)"
    by (simp add: full_room_state_eq)
  have f: "int (map_size (users (room_of [] [] [(''A'', ann)] 1)))
             = maxUsers (settings (room_of [] [] [(''A'', ann)] 1))"
    by (simp add: room_of_def map_size_def)
  have m: "map_get (users (room_of [] [] [(''A'', ann)] 1)) ''A'' = Some ann"
    by (simp add: room_of_def)
  from rejoin_full [OF s v r f m, of 7 False] show ?thesis by simp
qed

section \<open>Diagram updates\<close>

text \<open>
  C7. An \<open>update-diagram\<close> from a connection associated with an existing room stores each
  field the payload provides and keeps the previous value of each field it omits; with
  only the nodes given the stored edges stay, and the other way round. Nothing else in
  the room changes.
\<close>

theorem update_diagram_keeps:
  assumes sk: "map_get (sockets st) sid = Some sk"
    and "sock_roomId sk = Some rid" and "truthy rid"
    and room: "map_get (rooms st) rid = Some room"
  shows "map_get (rooms (fst (handle now sid (UpdateDiagram dn de) st))) rid =
           Some (room\<lparr>nodes := (case dn of None \<Rightarrow> nodes room | Some ns \<Rightarrow> ns),
                      edges := (case de of None \<Rightarrow> edges room | Some es \<Rightarrow> es)\<rparr>)"
  using assms
  by (simp add: handle_def update_diagram_def current_room_Some Let_def map_get_set)

theorem update_diagram_keeps_witness:
  "map_get (rooms (fst (handle 3 ''A'' (UpdateDiagram (Some [''n1'', ''n2'']) None) drawn_state)))
       ''r1''
     = Some (room_of [''n1'', ''n2''] [''e0''] [(''A'', ann)] 50)
   \<and> map_get (rooms (fst (handle 3 ''A'' (UpdateDiagram None (Some [])) drawn_state))) ''r1''
     = Some (room_of [''n0''] [] [(''A'', ann)] 50)"
proof -
  have s: "map_get (sockets drawn_state) ''A'' = Some (joined_socket ''A'' ''r1'' ''ann'')"
    by (simp add: drawn_state_eq)
  have c: "sock_roomId (joined_socket ''A'' ''r1'' ''ann'') = Some ''r1''"
    by (simp add: joined_socket_def)
  have v: "truthy ''r1''"
    by (simp add: truthy_def)
  have r: "map_get (rooms drawn_state) ''r1''
             = Some (room_of [''n0''] [''e0''] [(''A'', ann)] 50)"
    by (simp add: drawn_state_eq)
  from update_diagram_keeps [OF s c v r, of 3 "Some [''n1'', ''n2'']" None]
       update_diagram_keeps [OF s c v r, of 3 None "Some []"]
  show ?thesis by (simp add: room_of_def)
qed

section \<open>Ownership\<close>

text \<open>
  C4. A \<open>transfer-ownership\<close> from a connection that is not the owner of a room leaves
  that room as it was (owner, general roster, video roster and the rest), and sends no
  error event; when the room is the one the requester is associated with, the whole state
  is unchanged and nothing at all is sent.
\<close>

theorem transfer_non_owner:
  assumes sk: "map_get (sockets st) sid = Some sk"
    and room: "map_get (rooms st) rid = Some room"
    and other: "owner room \<noteq> sid"
  shows "map_get (rooms (fst (handle now sid (TransferOwnership n) st))) rid = Some room
       \<and> (\<forall>x \<in> set (snd (handle now sid (TransferOwnership n) st)). \<not> is_error (snd x))
       \<and> (sock_roomId sk = Some rid \<longrightarrow> handle now sid (TransferOwnership n) st = (st, []))"
proof (cases "current_room sk st")
  case None
  then show ?thesis using sk room
    by (simp add: handle_def transfer_ownership_def)
next
  case (Some p)
  obtain rid' room' where p: "p = (rid', room')" by (cases p)
  from Some p have cur: "sock_roomId sk = Some rid'" "map_get (rooms st) rid' = Some room'"
    using current_room_SomeD by blast+
  show ?thesis
  proof (cases "rid' = rid")
    case True
    with cur room other Some p sk show ?thesis
      by (simp add: handle_def transfer_ownership_def)
  next
    case False
    with cur room Some p sk show ?thesis
      by (simp add: handle_def transfer_ownership_def Let_def map_get_set)
  qed
qed

theorem transfer_non_owner_witness:
  "owner (room_of [] [] [(''A'', ann), (''B'', bob)] 50) \<noteq> ''B''
   \<and> handle 4 ''B'' (TransferOwnership ''B'') two_in_room = (two_in_room, [])
   \<and> map_get (rooms (fst (handle 4 ''B'' (TransferOwnership ''B'') two_in_room))) ''r1''
       = Some (room_of [] [] [(''A'', ann), (''B'', bob)] 50)"
proof -
  have s: "map_get (sockets two_in_room) ''B'' = Some (joined_socket ''B'' ''r1'' ''bob'')"
    by (simp add: two_in_room_eq)
  have r: "map_get (rooms two_in_room) ''r1''
             = Some (room_of [] [] [(''A'', ann), (''B'', bob)] 50)"
    by (simp add: two_in_room_eq)
  have n: "owner (room_of [] [] [(''A'', ann), (''B'', bob)] 50) \<noteq> ''B''"
    by (simp add: room_of_def)
  from transfer_non_owner [OF s r n, of 4 "''B''"] n r show ?thesis
    by (simp add: joined_socket_def)
qed

section \<open>Departure\<close>

lemma depart_last:
  assumes "sock_roomId sk = Some rid" and "truthy rid"
    and "map_get (rooms st) rid = Some room"
    and "map_delete sid (users room) = []"
  shows "depart sid sk st = (st\<lparr>rooms := map_delete rid (rooms st)\<rparr>, [])"
  using assms
  by (simp add: depart_def current_room_Some Let_def handover_empty map_size_def)

lemma depart_owner:
  assumes "sock_roomId sk = Some rid" and "truthy rid"
    and "map_get (rooms st) rid = Some room"
    and "owner room = sid"
    and "map_delete sid (users room) = (k, u) # rest"
  shows "depart sid sk st =
     (st\<lparr>rooms := map_set rid
            (room\<lparr>owner := k,
                  users := set_owner_flags k (map_delete sid (users room)),
                  videoUsers := set_owner_flags k (map_delete sid (videoUsers room))\<rparr>)
            (rooms st)\<rparr>,
      [(IoTo rid, EvOwnershipTransferred k
                    (map_values (set_owner_flags k (map_delete sid (users room))))),
       (SocketTo rid, EvUserLeft sid (sock_username sk)
                    (map_values (set_owner_flags k (map_delete sid (users room))))),
       (SocketTo rid, EvVideoUserLeft sid
                    (map_values (set_owner_flags k (map_delete sid (videoUsers room))))),
       (IoTo rid, EvUsersUpdated
                    (map_values (set_owner_flags k (map_delete sid (users room)))))])"
proof -
  let ?room1 = "room\<lparr>users := map_delete sid (users room),
                      videoUsers := map_delete sid (videoUsers room)\<rparr>"
  have u1: "users ?room1 = (k, u) # rest" using assms(5) by simp
  have o1: "owner ?room1 = sid" using assms(4) by simp
  have h: "handover sid rid ?room1 =
     (room\<lparr>owner := k,
           users := set_owner_flags k (map_delete sid (users room)),
           videoUsers := set_owner_flags k (map_delete sid (videoUsers room))\<rparr>,
      [(IoTo rid, EvOwnershipTransferred k
                    (map_values (set_owner_flags k (map_delete sid (users room)))))])"
    using handover_owner [OF u1 o1, of rid] by simp
  have ne: "set_owner_flags k (map_delete sid (users room)) \<noteq> []"
    using assms(5) by simp
  show ?thesis
    using assms(1-3) ne
    by (simp add: depart_def current_room_Some h map_size_def)
qed

text \<open>
  C5. The owner of a room leaves it, by \<open>leave-room\<close> or by \<open>disconnect\<close>, and the general
  roster is not empty once the owner's entry is removed. Then the room is still in the
  registry; its owner is the first key of the remaining roster; each roster, the general
  and the video one, is what it was without the leaver's entry, in the same order, every
  entry unchanged but for \<open>isOwner\<close>, which says whether the entry's key is the new owner;
  nothing else in the room changes; and \<open>ownership-transferred\<close> with the new owner's id
  and the updated general roster is sent to the whole room.
\<close>

theorem owner_departure:
  assumes sk: "map_get (sockets st) sid = Some sk"
    and cur: "sock_roomId sk = Some rid" "truthy rid"
    and room: "map_get (rooms st) rid = Some room"
    and own: "owner room = sid"
    and left: "map_delete sid (users room) = (k, u) # rest"
    and ev: "ev = LeaveRoom \<or> ev = Disconnect"
  shows "\<exists>room'. map_get (rooms (fst (handle now sid ev st))) rid = Some room'
          \<and> owner room' = k
          \<and> users room' =
              map (\<lambda>(key, p). (key, p\<lparr>isOwner := (key = k)\<rparr>)) (map_delete sid (users room))
          \<and> videoUsers room' =
              map (\<lambda>(key, p). (key, p\<lparr>isOwner := (key = k)\<rparr>)) (map_delete sid (videoUsers room))
          \<and> room' = room\<lparr>owner := k, users := users room', videoUsers := videoUsers room'\<rparr>
          \<and> map_keys (users room') = map_keys (map_delete sid (users room))
          \<and> map_keys (videoUsers room') = map_keys (map_delete sid (videoUsers room))
          \<and> k \<in> set (map_keys (users room'))
          \<and> list_all (\<lambda>(key, p). isOwner p = (key = owner room')) (users room')
          \<and> list_all (\<lambda>(key, p). isOwner p = (key = owner room')) (videoUsers room')
          \<and> (IoTo rid, EvOwnershipTransferred k (map_values (users room')))
               \<in> set (snd (handle now sid ev st))"
proof -
  let ?room' = "room\<lparr>owner := k,
                  users := set_owner_flags k (map_delete sid (users room)),
                  videoUsers := set_owner_flags k (map_delete sid (videoUsers room))\<rparr>"
  have get: "map_get (rooms (fst (handle now sid ev st))) rid = Some ?room'"
    and out: "(IoTo rid, EvOwnershipTransferred k (map_values (users ?room')))
               \<in> set (snd (handle now sid ev st))"
    using sk ev depart_owner [OF cur room own left]
    by (auto simp add: handle_def leave_room_def disconnect_def map_get_set)
  have k: "k \<in> set (map_keys (users ?room'))"
    using left by (simp add: map_keys_def [of "(k, u) # rest"])
  have us: "users ?room' =
      map (\<lambda>(key, p). (key, p\<lparr>isOwner := (key = k)\<rparr>)) (map_delete sid (users room))"
    and vs: "videoUsers ?room' =
      map (\<lambda>(key, p). (key, p\<lparr>isOwner := (key = k)\<rparr>)) (map_delete sid (videoUsers room))"
    by (simp_all add: set_owner_flags_map)
  have whole: "?room' = room\<lparr>owner := k, users := users ?room', videoUsers := videoUsers ?room'\<rparr>"
    by simp
  have keys: "map_keys (users ?room') = map_keys (map_delete sid (users room))"
      "map_keys (videoUsers ?room') = map_keys (map_delete sid (videoUsers room))"
    by simp_all
  have flags: "list_all (\<lambda>(key, p). isOwner p = (key = owner ?room')) (users ?room')"
      "list_all (\<lambda>(key, p). isOwner p = (key = owner ?room')) (videoUsers ?room')"
    using flags_set_owner_flags [of k] by simp_all
  have ow: "owner ?room' = k"
    by simp
  show ?thesis
    by (intro exI [of _ ?room'] conjI get ow us vs whole keys k flags out)
qed

theorem owner_departure_witness:
  "map_get (rooms video_trio_state) ''r1'' = Some video_trio_room
   \<and> map_get (rooms (fst (handle 9 ''A'' Disconnect video_trio_state))) ''r1''
       = Some ((room_of [] [] [(''B'', bob\<lparr>isOwner := True\<rparr>), (''C'', carl)] 50)
                \<lparr>owner := ''B'',
                 videoUsers := [(''B'', bob\<lparr>isOwner := True\<rparr>), (''C'', carl)]\<rparr>)
   \<and> map_get (rooms (fst (handle 9 ''A'' LeaveRoom video_trio_state))) ''r1''
       = Some ((room_of [] [] [(''B'', bob\<lparr>isOwner := True\<rparr>), (''C'', carl)] 50)
                \<lparr>owner := ''B'',
                 videoUsers := [(''B'', bob\<lparr>isOwner := True\<rparr>), (''C'', carl)]\<rparr>)
   \<and> (IoTo ''r1'', EvOwnershipTransferred ''B'' [bob\<lparr>isOwner := True\<rparr>, carl])
        \<in> set (snd (handle 9 ''A'' Disconnect video_trio_state))"
proof -
  have s: "map_get (sockets video_trio_state) ''A'' = Some (joined_socket ''A'' ''r1'' ''ann'')"
    by (simp add: video_trio_state_eq)
  have c: "sock_roomId (joined_socket ''A'' ''r1'' ''ann'') = Some ''r1''"
    by (simp add: joined_socket_def)
  have v: "truthy ''r1''"
    by (simp add: truthy_def)
  have r: "map_get (rooms video_trio_state) ''r1'' = Some video_trio_room"
    by (simp add: video_trio_state_eq)
  have ow: "owner video_trio_room = ''A''"
    by (simp add: video_trio_room_def room_of_def)
  have l: "map_delete ''A'' (users video_trio_room) = (''B'', bob) # [(''C'', carl)]"
    by (simp add: video_trio_room_def room_of_def)
  have lv: "map_delete ''A'' (videoUsers video_trio_room) = [(''B'', bob), (''C'', carl)]"
    by (simp add: video_trio_room_def room_of_def)
  have d: "Disconnect = LeaveRoom \<or> Disconnect = Disconnect"
    and e: "LeaveRoom = LeaveRoom \<or> LeaveRoom = Disconnect"
    by simp_all
  from owner_departure [OF s c v r ow l d, of 9] owner_departure [OF s c v r ow l e, of 9]
  show ?thesis
    unfolding l lv
    by (auto simp add: r video_trio_room_def room_of_def map_values_def bob_def carl_def)
qed

text \<open>
  C6. A connection leaves the room it is associated with, by \<open>leave-room\<close> or by
  \<open>disconnect\<close>, and the general roster is empty once its entry is removed. The same
  handler deletes the room: a lookup of the room id in the registry finds nothing
  afterwards.
\<close>

theorem last_departure:
  assumes sk: "map_get (sockets st) sid = Some sk"
    and cur: "sock_roomId sk = Some rid" "truthy rid"
    and room: "map_get (rooms st) rid = Some room"
    and last: "map_delete sid (users room) = []"
  shows "map_get (rooms (fst (handle now sid LeaveRoom st))) rid = None
       \<and> map_get (rooms (fst (handle now sid Disconnect st))) rid = None"
  using sk depart_last [OF cur room last]
  by (simp add: handle_def leave_room_def disconnect_def map_get_delete)

theorem last_departure_witness:
  "map_delete ''A'' (users (room_of [] [] [(''A'', ann)] 50)) = []
   \<and> map_get (rooms solo_state) ''r1'' = Some (room_of [] [] [(''A'', ann)] 50)
   \<and> map_get (rooms (fst (handle 9 ''A'' LeaveRoom solo_state))) ''r1'' = None
   \<and> map_get (rooms (fst (handle 9 ''A'' Disconnect solo_state))) ''r1'' = None"
proof -
  have s: "map_get (sockets solo_state) ''A'' = Some (joined_socket ''A'' ''r1'' ''ann'')"
    by (simp add: solo_state_eq)
  have c: "sock_roomId (joined_socket ''A'' ''r1'' ''ann'') = Some ''r1''"
    by (simp add: joined_socket_def)
  have v: "truthy ''r1''"
    by (simp add: truthy_def)
  have r: "map_get (rooms solo_state) ''r1'' = Some (room_of [] [] [(''A'', ann)] 50)"
    by (simp add: solo_state_eq)
  have l: "map_delete ''A'' (users (room_of [] [] [(''A'', ann)] 50)) = []"
    by (simp add: room_of_def)
  from last_departure [OF s c v r l, of 9] r l show ?thesis by simp
qed

section \<open>Signalling relay\<close>




section \<open>Joining a second room\<close>

text \<open>
  C9. The code under "Leave previous room if any" is \<open>socket.leave(socket.roomId)\<close> only.
  Connection \<open>A\<close>, alone in \<open>r1\<close>, joins \<open>r2\<close>: its association and its transport
  subscription move to \<open>r2\<close>, but its entry stays in the roster of \<open>r1\<close>, so it is in two
  general rosters; and when it disconnects, only \<open>r2\<close> is cleaned up and \<open>r1\<close> keeps the
  entry of a connection that no longer exists.
\<close>

theorem join_second_room_keeps_first_entry:
  "map_get (rooms solo_state) ''r1'' = Some (room_of [] [] [(''A'', ann)] 50)
   \<and> map_get (sockets (fst (handle 5 ''A'' (JoinRoom ''r2'' ''ann'' False) solo_state))) ''A''
       = Some (joined_socket ''A'' ''r2'' ''ann'')
   \<and> map_get (rooms (fst (handle 5 ''A'' (JoinRoom ''r2'' ''ann'' False) solo_state))) ''r1''
       = Some (room_of [] [] [(''A'', ann)] 50)
   \<and> map_get (rooms (fst (handle 5 ''A'' (JoinRoom ''r2'' ''ann'' False) solo_state))) ''r2''
       = Some ((room_of [] [] [(''A'', ann\<lparr>joinedAt := 5, lastSeen := 5\<rparr>)] 50)\<lparr>created := 5\<rparr>)
   \<and> map_get (rooms (fst (handle 6 ''A'' Disconnect
        (fst (handle 5 ''A'' (JoinRoom ''r2'' ''ann'' False) solo_state))))) ''r1''
       = Some (room_of [] [] [(''A'', ann)] 50)
   \<and> \<not> map_has (sockets (fst (handle 6 ''A'' Disconnect
        (fst (handle 5 ''A'' (JoinRoom ''r2'' ''ann'' False) solo_state))))) ''A''"
  by (auto simp add: solo_state_eq handler_defs joined_socket_def room_of_def ann_def)

section \<open>Invariants of the registry\<close>

lemma all_rooms_sockets [simp]: "all_rooms P (st\<lparr>sockets := s\<rparr>) = all_rooms P st"
  by (simp add: all_rooms_def)

lemma all_rooms_set:
  "all_rooms P st \<Longrightarrow> P room \<Longrightarrow> all_rooms P (st\<lparr>rooms := map_set rid room (rooms st)\<rparr>)"
  by (simp add: all_rooms_def list_all_map_set)

lemma all_rooms_delete:
  "all_rooms P st \<Longrightarrow> all_rooms P (st\<lparr>rooms := map_delete rid (rooms st)\<rparr>)"
  by (simp add: all_rooms_def list_all_map_delete)

lemma all_rooms_get:
  "all_rooms P st \<Longrightarrow> map_get (rooms st) rid = Some room \<Longrightarrow> P room"
  by (auto simp: all_rooms_def list_all_iff dest: map_get_mem)

lemma all_rooms_current:
  "all_rooms P st \<Longrightarrow> current_room sk st = Some (rid, room) \<Longrightarrow> P room"
  by (auto dest: current_room_SomeD all_rooms_get)

text \<open>The two joins, for any property of rooms.\<close>

lemma join_room_all_rooms:
  assumes inv: "all_rooms P st"
    and fresh: "\<not> map_has (rooms st) roomId \<Longrightarrow> truthy roomId \<Longrightarrow> truthy uname \<Longrightarrow>
        (if maxUsers (settings (new_room now sid (envMaxUsers st))) \<le> 0
         then P (new_room now sid (envMaxUsers st))
         else P ((new_room now sid (envMaxUsers st))
                   \<lparr>users := [(sid, new_participant now sid uname True)]\<rparr>))"
    and old: "\<And>room. map_get (rooms st) roomId = Some room \<Longrightarrow> P room \<Longrightarrow>
        \<not> maxUsers (settings room) \<le> int (map_size (users room)) \<Longrightarrow>
        P (room\<lparr>users := map_set sid (new_participant now sid uname (b \<or> owner room = sid))
                            (users room)\<rparr>)"
  shows "all_rooms P (fst (join_room now sid sk roomId uname b st))"
proof (cases "truthy roomId \<and> truthy uname")
  case False
  then show ?thesis using inv by (auto simp: join_room_def)
next
  case True
  show ?thesis
  proof (cases "map_get (rooms st) roomId")
    case None
    then have nh: "\<not> map_has (rooms st) roomId" by (simp add: map_has_def)
    from fresh [OF nh] True
    show ?thesis using inv None
      by (simp add: join_room_def Let_def init_room_def map_has_def map_get_set map_size_def
          new_room_def map_set_twice all_rooms_def list_all_map_set split: if_splits)
  next
    case (Some room)
    with inv have pr: "P room" by (rule all_rooms_get)
    show ?thesis
    proof (cases "maxUsers (settings room) \<le> int (map_size (users room))")
      case full: True
      then show ?thesis using inv Some True
        by (simp add: join_room_def Let_def init_room_def map_has_def all_rooms_def)
    next
      case free: False
      from old [OF Some pr free] show ?thesis using inv Some True free
        by (simp add: join_room_def Let_def init_room_def map_has_def all_rooms_def
            list_all_map_set)
    qed
  qed
qed

lemma join_video_room_all_rooms:
  assumes inv: "all_rooms P st"
    and fresh: "\<not> map_has (rooms st) roomId \<Longrightarrow>
        P (new_room now sid (envMaxUsers st))
        \<and> P ((new_room now sid (envMaxUsers st))
               \<lparr>videoUsers := [(sid, new_participant now sid uname True)]\<rparr>)"
    and old: "\<And>room. map_get (rooms st) roomId = Some room \<Longrightarrow> P room \<Longrightarrow>
        \<not> maxUsers (settings room) \<le> int (map_size (videoUsers room)) \<Longrightarrow>
        P (room\<lparr>videoUsers := map_set sid (new_participant now sid uname (b \<or> owner room = sid))
                                 (videoUsers room)\<rparr>)"
  shows "all_rooms P (fst (join_video_room now sid sk roomId uname b st))"
proof (cases "map_get (rooms st) roomId")
  case None
  then have nh: "\<not> map_has (rooms st) roomId" by (simp add: map_has_def)
  from fresh [OF nh]
  show ?thesis using inv None
    by (simp add: join_video_room_def Let_def init_room_def map_has_def map_get_set map_size_def
        new_room_def map_set_twice all_rooms_def list_all_map_set)
next
  case (Some room)
  with inv have pr: "P room" by (rule all_rooms_get)
  show ?thesis
  proof (cases "maxUsers (settings room) \<le> int (map_size (videoUsers room))")
    case full: True
    then show ?thesis using inv Some
      by (simp add: join_video_room_def Let_def init_room_def map_has_def all_rooms_def)
  next
    case free: False
    from old [OF Some pr free] show ?thesis using inv Some free
      by (simp add: join_video_room_def Let_def init_room_def map_has_def all_rooms_def
          list_all_map_set)
  qed
qed

lemma media_toggle_all_rooms:
  assumes inv: "all_rooms P st"
    and upd: "\<And>room user user'. P room \<Longrightarrow> map_get (videoUsers room) sid = Some user \<Longrightarrow>
        uid user' = uid user \<Longrightarrow> isOwner user' = isOwner user \<Longrightarrow>
        P (room\<lparr>videoUsers := map_set sid user' (videoUsers room)\<rparr>)"
  shows "all_rooms P (fst (media_toggle sid sk v a st))"
proof (cases "current_room sk st")
  case None
  then show ?thesis using inv by (simp add: media_toggle_def)
next
  case (Some p)
  obtain rid room where p: "p = (rid, room)" by (cases p)
  with Some inv have pr: "P room" by (auto dest: all_rooms_current)
  show ?thesis
  proof (cases "map_get (videoUsers room) sid")
    case None
    then show ?thesis using inv Some p by (simp add: media_toggle_def)
  next
    case (Some user)
    let ?u1 = "case v of None \<Rightarrow> user | Some x \<Rightarrow> user\<lparr>videoEnabled := x\<rparr>"
    let ?u2 = "case a of None \<Rightarrow> ?u1 | Some x \<Rightarrow> ?u1\<lparr>audioEnabled := x\<rparr>"
    have "uid ?u2 = uid user" "isOwner ?u2 = isOwner user"
      by (auto split: option.splits)
    from upd [OF pr Some this]
    show ?thesis using inv \<open>current_room sk st = Some p\<close> p Some
      by (simp add: media_toggle_def Let_def all_rooms_def list_all_map_set)
  qed
qed

lemma update_diagram_all_rooms:
  assumes inv: "all_rooms P st"
    and upd: "\<And>room ns es. P room \<Longrightarrow> P (room\<lparr>nodes := ns, edges := es\<rparr>)"
  shows "all_rooms P (fst (update_diagram sid sk dn de st))"
proof (cases "current_room sk st")
  case None
  then show ?thesis using inv by (simp add: update_diagram_def)
next
  case (Some p)
  obtain rid room where p: "p = (rid, room)" by (cases p)
  with Some inv have pr: "P room" by (auto dest: all_rooms_current)
  from upd [OF pr] show ?thesis using inv Some p
    by (simp add: update_diagram_def Let_def all_rooms_def list_all_map_set)
qed

lemma transfer_ownership_all_rooms:
  assumes inv: "all_rooms P st"
    and upd: "\<And>rid room. current_room sk st = Some (rid, room) \<Longrightarrow> P room \<Longrightarrow> owner room = sid \<Longrightarrow>
        P (room\<lparr>owner := n, users := set_owner_flags n (users room),
                videoUsers := set_owner_flags n (videoUsers room)\<rparr>)"
  shows "all_rooms P (fst (transfer_ownership sid sk n st))"
proof (cases "current_room sk st")
  case None
  then show ?thesis using inv by (simp add: transfer_ownership_def)
next
  case (Some p)
  obtain rid room where p: "p = (rid, room)" by (cases p)
  with Some inv have pr: "P room" by (auto dest: all_rooms_current)
  show ?thesis
  proof (cases "owner room = sid")
    case True
    from upd [OF _ pr True, of rid] Some p
    show ?thesis using inv True
      by (simp add: transfer_ownership_def Let_def all_rooms_def list_all_map_set)
  next
    case False
    then show ?thesis using inv Some p by (simp add: transfer_ownership_def)
  qed
qed

lemma leave_video_room_all_rooms:
  assumes inv: "all_rooms P st"
    and upd: "\<And>room. P room \<Longrightarrow> P (room\<lparr>videoUsers := map_delete sid (videoUsers room)\<rparr>)"
  shows "all_rooms P (fst (leave_video_room sid sk st))"
proof (cases "current_room sk st")
  case None
  then show ?thesis using inv by (simp add: leave_video_room_def)
next
  case (Some p)
  obtain rid room where p: "p = (rid, room)" by (cases p)
  with Some inv have pr: "P room" by (auto dest: all_rooms_current)
  from upd [OF pr] show ?thesis using inv Some p
    by (simp add: leave_video_room_def Let_def all_rooms_def list_all_map_set)
qed

lemma depart_all_rooms:
  assumes inv: "all_rooms P st"
    and upd: "\<And>rid room. P room \<Longrightarrow>
        users (fst (handover sid rid (room\<lparr>users := map_delete sid (users room),
                                           videoUsers := map_delete sid (videoUsers room)\<rparr>))) \<noteq> [] \<Longrightarrow>
        P (fst (handover sid rid (room\<lparr>users := map_delete sid (users room),
                                        videoUsers := map_delete sid (videoUsers room)\<rparr>)))"
  shows "all_rooms P (fst (depart sid sk st))"
proof (cases "current_room sk st")
  case None
  then show ?thesis using inv by (simp add: depart_def)
next
  case (Some p)
  obtain rid room where p: "p = (rid, room)" by (cases p)
  with Some inv have pr: "P room" by (auto dest: all_rooms_current)
  from upd [OF pr, of rid] show ?thesis using inv Some p
    by (simp add: depart_def Let_def all_rooms_def list_all_map_set list_all_map_delete
        map_size_def split_beta)
qed

lemma forwarders_keep_rooms:
  "rooms (fst (relay sid sk k t pl st)) = rooms st"
  "rooms (fst (start_screen_share sid sk st)) = rooms st"
  "rooms (fst (stop_screen_share sid sk st)) = rooms st"
  "rooms (fst (send_message now sid sk txt st)) = rooms st"
  "rooms (fst (start_recording sid sk st)) = rooms st"
  "rooms (fst (stop_recording sid sk st)) = rooms st"
  "rooms (fst (draw sid sk d st)) = rooms st"
  "rooms (fst (clear sid sk st)) = rooms st"
  by (simp_all add: relay_def start_screen_share_def stop_screen_share_def send_message_def
      start_recording_def stop_recording_def draw_def clear_def split: option.splits prod.splits)

lemma forwarders_all_rooms:
  "all_rooms P (fst (relay sid sk k t pl st)) = all_rooms P st"
  "all_rooms P (fst (start_screen_share sid sk st)) = all_rooms P st"
  "all_rooms P (fst (stop_screen_share sid sk st)) = all_rooms P st"
  "all_rooms P (fst (send_message now sid sk txt st)) = all_rooms P st"
  "all_rooms P (fst (start_recording sid sk st)) = all_rooms P st"
  "all_rooms P (fst (stop_recording sid sk st)) = all_rooms P st"
  "all_rooms P (fst (draw sid sk d st)) = all_rooms P st"
  "all_rooms P (fst (clear sid sk st)) = all_rooms P st"
  by (simp_all add: all_rooms_def forwarders_keep_rooms)

lemma outside_all_rooms:
  assumes "all_rooms P st"
  shows "all_rooms P (connect sid st)"
    and "all_rooms P (http_delete_room rid st)"
    and "all_rooms P (sweep now st)"
  using assms
  by (simp_all add: connect_def http_delete_room_def sweep_def all_rooms_def list_all_map_delete
      list_all_filter)


lemma map_keys_delete: "set (map_keys (map_delete k m)) = set (map_keys m) - {k}"
  by (induction m) (force simp: map_keys_def)+

lemma flag_ok_set_owner_flags:
  "list_all (flag_ok own) m \<Longrightarrow> list_all (flag_ok n) (set_owner_flags n m)"
  by (induction m) (auto simp: set_owner_flags_def flag_ok_def)

subsection \<open>The owner stays in the roster\<close>

lemma room_ok_join:
  "room_ok room \<Longrightarrow> room_ok (room\<lparr>users := map_set sid p (users room)\<rparr>)"
  by (simp add: room_ok_def map_keys_set)

lemma room_ok_handover:
  assumes ok: "room_ok room"
    and ne: "users (fst (handover sid rid (room\<lparr>users := map_delete sid (users room),
                 videoUsers := map_delete sid (videoUsers room)\<rparr>))) \<noteq> []"
  shows "room_ok (fst (handover sid rid (room\<lparr>users := map_delete sid (users room),
                 videoUsers := map_delete sid (videoUsers room)\<rparr>)))"
proof (cases "map_delete sid (users room)")
  case Nil
  then show ?thesis using ne by (simp add: handover_def)
next
  case (Cons e rest)
  obtain k u where e: "e = (k, u)" by (cases e)
  show ?thesis
  proof (cases "owner room = sid")
    case True
    then show ?thesis using Cons e
      by (simp add: handover_def Let_def room_ok_def map_keys_def [of "(k, u) # rest"])
  next
    case False
    have "owner room \<in> set (map_keys (map_delete sid (users room)))"
      using ok False by (simp add: map_keys_delete room_ok_def)
    then show ?thesis using False Cons
      by (simp add: handover_other room_ok_def)
  qed
qed

lemma room_ok_transfer:
  "room_ok room \<Longrightarrow> n \<in> set (map_keys (users room)) \<Longrightarrow>
     room_ok (room\<lparr>owner := n, users := set_owner_flags n (users room),
                   videoUsers := set_owner_flags n (videoUsers room)\<rparr>)"
  by (simp add: room_ok_def)

lemma default_max_users_pos:
  "(case e of None \<Rightarrow> True | Some n \<Rightarrow> 0 \<le> n) \<Longrightarrow> 0 < default_max_users e"
  by (auto simp: default_max_users_def split: option.splits)

lemma registry_ok_event:
  assumes inv: "registry_ok st"
    and cap: "case envMaxUsers st of None \<Rightarrow> True | Some n \<Rightarrow> 0 \<le> n"
    and video: "\<forall>rid u b. ev = JoinVideoRoom rid u b \<longrightarrow> map_has (rooms st) rid"
    and transfer: "\<forall>n rid room. ev = TransferOwnership n \<longrightarrow>
        current_room sk st = Some (rid, room) \<longrightarrow> owner room = sid \<longrightarrow>
        n \<in> set (map_keys (users room))"
  shows "registry_ok (fst (on_event now sid sk ev st))"
proof (cases ev)
  case (JoinRoom rid u b)
  have "all_rooms room_ok (fst (join_room now sid sk rid u b st))"
  proof (rule join_room_all_rooms)
    show "all_rooms room_ok st" using inv by (simp add: registry_ok_def)
  next
    show "if maxUsers (settings (new_room now sid (envMaxUsers st))) \<le> 0
          then room_ok (new_room now sid (envMaxUsers st))
          else room_ok ((new_room now sid (envMaxUsers st))
                 \<lparr>users := [(sid, new_participant now sid u True)]\<rparr>)"
      using default_max_users_pos [OF cap]
      by (simp add: room_ok_def new_room_def map_keys_def)
  next
    fix room assume "room_ok room"
    then show "room_ok (room\<lparr>users := map_set sid
        (new_participant now sid u (b \<or> owner room = sid)) (users room)\<rparr>)"
      by (rule room_ok_join)
  qed
  then show ?thesis using JoinRoom by (simp add: registry_ok_def)
next
  case (JoinVideoRoom rid u b)
  with video have has: "map_has (rooms st) rid" by simp
  have "all_rooms room_ok (fst (join_video_room now sid sk rid u b st))"
  proof (rule join_video_room_all_rooms)
    show "all_rooms room_ok st" using inv by (simp add: registry_ok_def)
  next
    assume "\<not> map_has (rooms st) rid"
    with has show "room_ok (new_room now sid (envMaxUsers st)) \<and>
      room_ok ((new_room now sid (envMaxUsers st))
        \<lparr>videoUsers := [(sid, new_participant now sid u True)]\<rparr>)"
      by simp
  next
    fix room assume "room_ok room"
    then show "room_ok (room\<lparr>videoUsers := map_set sid
        (new_participant now sid u (b \<or> owner room = sid)) (videoUsers room)\<rparr>)"
      by (simp add: room_ok_def)
  qed
  then show ?thesis using JoinVideoRoom by (simp add: registry_ok_def)
next
  case (MediaToggle v a)
  have "all_rooms room_ok (fst (media_toggle sid sk v a st))"
    using inv by (intro media_toggle_all_rooms) (simp_all add: registry_ok_def room_ok_def)
  then show ?thesis using MediaToggle by (simp add: registry_ok_def)
next
  case (UpdateDiagram dn de)
  have "all_rooms room_ok (fst (update_diagram sid sk dn de st))"
    using inv by (intro update_diagram_all_rooms) (simp_all add: registry_ok_def room_ok_def)
  then show ?thesis using UpdateDiagram by (simp add: registry_ok_def)
next
  case (TransferOwnership n)
  have "all_rooms room_ok (fst (transfer_ownership sid sk n st))"
  proof (rule transfer_ownership_all_rooms)
    show "all_rooms room_ok st" using inv by (simp add: registry_ok_def)
  next
    fix rid room
    assume "current_room sk st = Some (rid, room)" "room_ok room" "owner room = sid"
    with transfer TransferOwnership
    show "room_ok (room\<lparr>owner := n, users := set_owner_flags n (users room),
                        videoUsers := set_owner_flags n (videoUsers room)\<rparr>)"
      by (intro room_ok_transfer) auto
  qed
  then show ?thesis using TransferOwnership by (simp add: registry_ok_def)
next
  case LeaveVideoRoom
  have "all_rooms room_ok (fst (leave_video_room sid sk st))"
    using inv by (intro leave_video_room_all_rooms) (simp_all add: registry_ok_def room_ok_def)
  then show ?thesis using LeaveVideoRoom by (simp add: registry_ok_def)
next
  case LeaveRoom
  have "all_rooms room_ok (fst (depart sid sk st))"
    using inv by (intro depart_all_rooms room_ok_handover) (simp_all add: registry_ok_def)
  then show ?thesis using LeaveRoom by (simp add: registry_ok_def leave_room_def)
next
  case Disconnect
  have "all_rooms room_ok (fst (depart sid sk st))"
    using inv by (intro depart_all_rooms room_ok_handover) (simp_all add: registry_ok_def)
  then show ?thesis using Disconnect
    by (simp add: registry_ok_def disconnect_def split_beta)
qed (use inv in \<open>simp_all add: registry_ok_def forwarders_all_rooms\<close>)

text \<open>
  C1. Every room in the registry has a non-empty general roster that contains its owner,
  after every operation (connection, socket event, HTTP deletion, sweep) that starts from
  such a registry, under three conditions: \<open>MAX_USERS_PER_ROOM\<close> is not negative; a
  \<open>join-video-room\<close> names a room that exists; the new owner named in a
  \<open>transfer-ownership\<close> by the owner of the requester's room is in that room's general
  roster.
\<close>

theorem registry_ok_step:
  assumes inv: "registry_ok st"
    and cap: "case envMaxUsers st of None \<Rightarrow> True | Some n \<Rightarrow> 0 \<le> n"
    and video: "\<forall>sid rid u b. opn = Event sid (JoinVideoRoom rid u b) \<longrightarrow> map_has (rooms st) rid"
    and transfer: "\<forall>sid n sk rid room. opn = Event sid (TransferOwnership n) \<longrightarrow>
        map_get (sockets st) sid = Some sk \<longrightarrow> current_room sk st = Some (rid, room) \<longrightarrow>
        owner room = sid \<longrightarrow> n \<in> set (map_keys (users room))"
  shows "registry_ok (fst (step now opn st))"
proof (cases opn)
  case (Event sid ev)
  show ?thesis
  proof (cases "map_get (sockets st) sid")
    case None
    then show ?thesis using inv Event by (simp add: handle_def)
  next
    case (Some sk)
    have "registry_ok (fst (on_event now sid sk ev st))"
      using inv cap video transfer Event Some
      by (intro registry_ok_event) auto
    then show ?thesis using Event Some by (simp add: handle_def)
  qed
qed (use inv in \<open>simp_all add: registry_ok_def outside_all_rooms\<close>)


theorem registry_ok_step_witness:
  "registry_ok two_in_room
   \<and> registry_ok (fst (step 1 (Event ''A'' (TransferOwnership ''B'')) two_in_room))
   \<and> registry_ok (fst (step 1 (Event ''B'' (JoinVideoRoom ''r1'' ''bob'' False)) two_in_room))"
proof -
  have i: "registry_ok two_in_room"
    by (simp add: two_in_room_eq inv_defs room_of_def map_keys_def)
  have c: "case envMaxUsers two_in_room of None \<Rightarrow> True | Some n \<Rightarrow> 0 \<le> n"
    by (simp add: two_in_room_eq)
  have v1: "\<forall>sid rid u b. Event ''A'' (TransferOwnership ''B'') = Event sid (JoinVideoRoom rid u b)
              \<longrightarrow> map_has (rooms two_in_room) rid"
    by simp
  have t1: "\<forall>sid n sk rid room. Event ''A'' (TransferOwnership ''B'') = Event sid (TransferOwnership n)
              \<longrightarrow> map_get (sockets two_in_room) sid = Some sk
              \<longrightarrow> current_room sk two_in_room = Some (rid, room)
              \<longrightarrow> owner room = sid \<longrightarrow> n \<in> set (map_keys (users room))"
    by (auto simp add: two_in_room_eq current_room_def joined_socket_def truthy_def room_of_def
        map_keys_def)
  have v2: "\<forall>sid rid u b. Event ''B'' (JoinVideoRoom ''r1'' ''bob'' False) = Event sid (JoinVideoRoom rid u b)
              \<longrightarrow> map_has (rooms two_in_room) rid"
    by (simp add: two_in_room_eq map_has_def)
  have t2: "\<forall>sid n sk rid room. Event ''B'' (JoinVideoRoom ''r1'' ''bob'' False) = Event sid (TransferOwnership n)
              \<longrightarrow> map_get (sockets two_in_room) sid = Some sk
              \<longrightarrow> current_room sk two_in_room = Some (rid, room)
              \<longrightarrow> owner room = sid \<longrightarrow> n \<in> set (map_keys (users room))"
    by simp
  from registry_ok_step [OF i c v1 t1, of 1] registry_ok_step [OF i c v2 t2, of 1] i
  show ?thesis by simp
qed

text \<open>
  C1 as stated fails on the three paths the conditions exclude: a \<open>join-video-room\<close> for
  an unknown room id creates a room with an empty general roster and leaves it in the
  registry; a \<open>transfer-ownership\<close> to an id outside the roster is carried out as it is;
  and with a negative \<open>MAX_USERS_PER_ROOM\<close> the first \<open>join-room\<close> creates the room, is
  then refused as full, and the empty room stays.
\<close>

theorem owner_in_roster_counterexample:
  "registry_ok connected_state
   \<and> map_get (rooms (fst (step 1 (Event ''A'' (JoinVideoRoom ''r1'' ''ann'' False)) connected_state)))
        ''r1''
       = Some ((room_of [] [] [] 50)\<lparr>created := 1,
                 videoUsers := [(''A'', ann\<lparr>joinedAt := 1, lastSeen := 1\<rparr>)]\<rparr>)
   \<and> \<not> registry_ok (fst (step 1 (Event ''A'' (JoinVideoRoom ''r1'' ''ann'' False)) connected_state))
   \<and> registry_ok two_in_room
   \<and> map_get (rooms (fst (step 1 (Event ''A'' (TransferOwnership ''Z'')) two_in_room))) ''r1''
       = Some ((room_of [] [] [(''A'', ann\<lparr>isOwner := False\<rparr>), (''B'', bob)] 50)\<lparr>owner := ''Z''\<rparr>)
   \<and> \<not> registry_ok (fst (step 1 (Event ''A'' (TransferOwnership ''Z'')) two_in_room))
   \<and> registry_ok negative_cap_state
   \<and> step 1 (Event ''A'' (JoinRoom ''r1'' ''ann'' False)) negative_cap_state
       = (\<lparr>rooms = [(''r1'', (room_of [] [] [] (- 1))\<lparr>created := 1\<rparr>)],
           sockets = [(''A'', joined_socket ''A'' ''r1'' ''ann'')],
           envMaxUsers = Some (- 1)\<rparr>,
          [(SocketEmit, EvError ''Room is full'')])
   \<and> \<not> registry_ok (fst (step 1 (Event ''A'' (JoinRoom ''r1'' ''ann'' False)) negative_cap_state))"
  by (simp add: connected_state_eq two_in_room_eq negative_cap_state_eq inv_defs handler_defs
      idle_socket_def joined_socket_def room_of_def ann_def bob_def insert_commute)

subsection \<open>The stored flags\<close>

lemma flags_ok_handover:
  assumes ok: "flags_ok_room room"
  shows "flags_ok_room (fst (handover sid rid (room\<lparr>users := map_delete sid (users room),
                 videoUsers := map_delete sid (videoUsers room)\<rparr>)))"
proof -
  let ?us = "map_delete sid (users room)" and ?vs = "map_delete sid (videoUsers room)"
  have us: "list_all (flag_ok (owner room)) ?us" and vs: "list_all (flag_ok (owner room)) ?vs"
    using ok by (simp_all add: flags_ok_room_def list_all_map_delete)
  have new: "list_all (flag_ok k) (set_owner_flags k ?us)"
            "list_all (flag_ok k) (set_owner_flags k ?vs)" for k
    using us vs by (simp_all add: flag_ok_set_owner_flags [of "owner room"])
  show ?thesis
  proof (cases ?us)
    case Nil
    then show ?thesis using vs by (simp add: handover_def flags_ok_room_def)
  next
    case (Cons e rest)
    obtain k u where e: "e = (k, u)" by (cases e)
    show ?thesis
    proof (cases "owner room = sid")
      case True
      have "handover sid rid (room\<lparr>users := ?us, videoUsers := ?vs\<rparr>) =
              (room\<lparr>owner := k, users := set_owner_flags k ?us,
                    videoUsers := set_owner_flags k ?vs\<rparr>,
               [(IoTo rid, EvOwnershipTransferred k (map_values (set_owner_flags k ?us)))])"
        using handover_owner [of "room\<lparr>users := ?us, videoUsers := ?vs\<rparr>" k u rest sid rid]
          Cons e True by simp
      then show ?thesis using new [of k] by (simp add: flags_ok_room_def)
    next
      case False
      then show ?thesis using us vs by (simp add: handover_other flags_ok_room_def)
    qed
  qed
qed

lemma flag_ok_new_participant:
  "flag_ok own (sid, new_participant now sid u (own = sid))"
  by (auto simp: flag_ok_def new_participant_def)

lemma flag_ok_get:
  "list_all (flag_ok own) m \<Longrightarrow> map_get m k = Some p \<Longrightarrow> flag_ok own (k, p)"
  by (auto simp: list_all_iff dest: map_get_mem)

text \<open>A join keeps the flags when it does not make an owner of somebody else.\<close>

lemma flags_ok_join_room:
  assumes inv: "flags_ok st"
    and own: "b \<Longrightarrow> \<forall>room. map_get (rooms st) rid = Some room \<longrightarrow>
        \<not> maxUsers (settings room) \<le> int (map_size (users room)) \<longrightarrow> owner room = sid"
  shows "flags_ok (fst (join_room now sid sk rid u b st))"
proof -
  have "all_rooms flags_ok_room (fst (join_room now sid sk rid u b st))"
  proof (rule join_room_all_rooms)
    show "all_rooms flags_ok_room st" using inv by (simp add: flags_ok_def)
  next
    show "if maxUsers (settings (new_room now sid (envMaxUsers st))) \<le> 0
          then flags_ok_room (new_room now sid (envMaxUsers st))
          else flags_ok_room ((new_room now sid (envMaxUsers st))
                 \<lparr>users := [(sid, new_participant now sid u True)]\<rparr>)"
      using flag_ok_new_participant [of sid sid now u]
      by (simp add: flags_ok_room_def new_room_def)
  next
    fix room
    assume r: "map_get (rooms st) rid = Some room" and ok: "flags_ok_room room"
      and free: "\<not> maxUsers (settings room) \<le> int (map_size (users room))"
    have "(b \<or> owner room = sid) = (owner room = sid)"
      using own r free by auto
    then have "flag_ok (owner room) (sid, new_participant now sid u (b \<or> owner room = sid))"
      using flag_ok_new_participant [of "owner room" sid now u] by simp
    with ok show "flags_ok_room (room\<lparr>users := map_set sid
        (new_participant now sid u (b \<or> owner room = sid)) (users room)\<rparr>)"
      by (simp add: flags_ok_room_def list_all_map_set)
  qed
  then show ?thesis by (simp add: flags_ok_def)
qed

lemma flags_ok_join_video_room:
  assumes inv: "flags_ok st"
    and own: "b \<Longrightarrow> \<forall>room. map_get (rooms st) rid = Some room \<longrightarrow>
        \<not> maxUsers (settings room) \<le> int (map_size (videoUsers room)) \<longrightarrow> owner room = sid"
  shows "flags_ok (fst (join_video_room now sid sk rid u b st))"
proof -
  have "all_rooms flags_ok_room (fst (join_video_room now sid sk rid u b st))"
  proof (rule join_video_room_all_rooms)
    show "all_rooms flags_ok_room st" using inv by (simp add: flags_ok_def)
  next
    show "flags_ok_room (new_room now sid (envMaxUsers st)) \<and>
          flags_ok_room ((new_room now sid (envMaxUsers st))
                 \<lparr>videoUsers := [(sid, new_participant now sid u True)]\<rparr>)"
      using flag_ok_new_participant [of sid sid now u]
      by (simp add: flags_ok_room_def new_room_def)
  next
    fix room
    assume r: "map_get (rooms st) rid = Some room" and ok: "flags_ok_room room"
      and free: "\<not> maxUsers (settings room) \<le> int (map_size (videoUsers room))"
    have "(b \<or> owner room = sid) = (owner room = sid)"
      using own r free by auto
    then have "flag_ok (owner room) (sid, new_participant now sid u (b \<or> owner room = sid))"
      using flag_ok_new_participant [of "owner room" sid now u] by simp
    with ok show "flags_ok_room (room\<lparr>videoUsers := map_set sid
        (new_participant now sid u (b \<or> owner room = sid)) (videoUsers room)\<rparr>)"
      by (simp add: flags_ok_room_def list_all_map_set)
  qed
  then show ?thesis by (simp add: flags_ok_def)
qed

lemma flags_ok_event:
  assumes inv: "flags_ok st"
    and joins: "\<forall>rid u b. ev = JoinRoom rid u b \<or> ev = JoinVideoRoom rid u b \<longrightarrow> \<not> b"
  shows "flags_ok (fst (on_event now sid sk ev st))"
proof (cases ev)
  case (JoinRoom rid u b)
  with joins have nb: "\<not> b" by simp
  have "flags_ok (fst (join_room now sid sk rid u b st))"
    using inv nb by (intro flags_ok_join_room) auto
  then show ?thesis using JoinRoom by simp
next
  case (JoinVideoRoom rid u b)
  with joins have nb: "\<not> b" by simp
  have "flags_ok (fst (join_video_room now sid sk rid u b st))"
    using inv nb by (intro flags_ok_join_video_room) auto
  then show ?thesis using JoinVideoRoom by simp
next
  case (MediaToggle v a)
  have "all_rooms flags_ok_room (fst (media_toggle sid sk v a st))"
  proof (rule media_toggle_all_rooms)
    show "all_rooms flags_ok_room st" using inv by (simp add: flags_ok_def)
  next
    fix room :: room and user user' :: participant
    assume ok: "flags_ok_room room" and g: "map_get (videoUsers room) sid = Some user"
      and same: "uid user' = uid user" "isOwner user' = isOwner user"
    from ok g have "flag_ok (owner room) (sid, user)"
      by (auto simp: flags_ok_room_def intro: flag_ok_get)
    with same have "flag_ok (owner room) (sid, user')"
      by (simp add: flag_ok_def)
    with ok show "flags_ok_room (room\<lparr>videoUsers := map_set sid user' (videoUsers room)\<rparr>)"
      by (simp add: flags_ok_room_def list_all_map_set)
  qed
  then show ?thesis using MediaToggle by (simp add: flags_ok_def)
next
  case (UpdateDiagram dn de)
  have "all_rooms flags_ok_room (fst (update_diagram sid sk dn de st))"
    using inv by (intro update_diagram_all_rooms) (simp_all add: flags_ok_def flags_ok_room_def)
  then show ?thesis using UpdateDiagram by (simp add: flags_ok_def)
next
  case (TransferOwnership n)
  have "all_rooms flags_ok_room (fst (transfer_ownership sid sk n st))"
  proof (rule transfer_ownership_all_rooms)
    show "all_rooms flags_ok_room st" using inv by (simp add: flags_ok_def)
  next
    fix rid room
    assume "flags_ok_room room"
    then show "flags_ok_room (room\<lparr>owner := n, users := set_owner_flags n (users room),
                        videoUsers := set_owner_flags n (videoUsers room)\<rparr>)"
      by (simp add: flags_ok_room_def flag_ok_set_owner_flags [of "owner room"])
  qed
  then show ?thesis using TransferOwnership by (simp add: flags_ok_def)
next
  case LeaveVideoRoom
  have "all_rooms flags_ok_room (fst (leave_video_room sid sk st))"
    using inv
    by (intro leave_video_room_all_rooms)
       (simp_all add: flags_ok_def flags_ok_room_def list_all_map_delete)
  then show ?thesis using LeaveVideoRoom by (simp add: flags_ok_def)
next
  case LeaveRoom
  have "all_rooms flags_ok_room (fst (depart sid sk st))"
    using inv by (intro depart_all_rooms flags_ok_handover) (simp_all add: flags_ok_def)
  then show ?thesis using LeaveRoom by (simp add: flags_ok_def leave_room_def)
next
  case Disconnect
  have "all_rooms flags_ok_room (fst (depart sid sk st))"
    using inv by (intro depart_all_rooms flags_ok_handover) (simp_all add: flags_ok_def)
  then show ?thesis using Disconnect
    by (simp add: flags_ok_def disconnect_def split_beta)
qed (use inv in \<open>simp_all add: flags_ok_def forwarders_all_rooms\<close>)

lemma flags_ok_step_aux:
  assumes inv: "flags_ok st"
    and joins: "\<forall>sid rid u b. opn = Event sid (JoinRoom rid u b) \<or>
                  opn = Event sid (JoinVideoRoom rid u b) \<longrightarrow> \<not> b"
  shows "flags_ok (fst (step now opn st))"
proof (cases opn)
  case (Event sid ev)
  show ?thesis
  proof (cases "map_get (sockets st) sid")
    case None
    then show ?thesis using inv Event by (simp add: handle_def)
  next
    case (Some sk)
    have "flags_ok (fst (on_event now sid sk ev st))"
      using inv joins Event by (intro flags_ok_event) auto
    then show ?thesis using Event Some by (simp add: handle_def)
  qed
qed (use inv in \<open>simp_all add: flags_ok_def outside_all_rooms\<close>)

lemma init_room_has: "map_get (rooms (init_room now sid rid st)) rid \<noteq> None"
  by (auto simp: init_room_def map_has_def map_get_set)

lemma join_room_stores:
  assumes ok: "\<forall>x \<in> set (snd (join_room now sid sk rid u b st)). \<not> is_error (snd x)"
  shows "\<exists>room' p. map_get (rooms (fst (join_room now sid sk rid u b st))) rid = Some room'
           \<and> map_get (users room') sid = Some p
           \<and> isOwner p = (b \<or> owner room' = sid)"
proof -
  let ?sk' = "sk\<lparr>sock_roomId := Some rid, sock_username := Some u,
                 sock_rooms := insert rid (case sock_roomId sk of None \<Rightarrow> sock_rooms sk
                   | Some old \<Rightarrow> if truthy old then sock_rooms sk - {old} else sock_rooms sk)\<rparr>"
  let ?st1 = "init_room now sid rid (st\<lparr>sockets := map_set sid ?sk' (sockets st)\<rparr>)"
  from ok have valid: "truthy rid" "truthy u"
    by (auto simp: join_room_def split: if_splits)
  obtain room where room: "map_get (rooms ?st1) rid = Some room"
    using init_room_has [of now sid rid "st\<lparr>sockets := map_set sid ?sk' (sockets st)\<rparr>"] by auto
  from ok valid room have free: "\<not> maxUsers (settings room) \<le> int (map_size (users room))"
    by (auto simp: join_room_def Let_def split: if_splits)
  show ?thesis
    using valid room free
    by (simp add: join_room_def Let_def map_get_set new_participant_def)
qed

lemma join_video_room_stores:
  assumes ok: "\<forall>x \<in> set (snd (join_video_room now sid sk rid u b st)). \<not> is_error (snd x)"
  shows "\<exists>room' p. map_get (rooms (fst (join_video_room now sid sk rid u b st))) rid = Some room'
           \<and> map_get (videoUsers room') sid = Some p
           \<and> isOwner p = (b \<or> owner room' = sid)"
proof -
  let ?sk' = "sk\<lparr>sock_roomId := Some rid, sock_username := Some u,
                 sock_rooms := insert rid (sock_rooms sk)\<rparr>"
  let ?st1 = "init_room now sid rid (st\<lparr>sockets := map_set sid ?sk' (sockets st)\<rparr>)"
  obtain room where room: "map_get (rooms ?st1) rid = Some room"
    using init_room_has [of now sid rid "st\<lparr>sockets := map_set sid ?sk' (sockets st)\<rparr>"] by auto
  from ok room have free: "\<not> maxUsers (settings room) \<le> int (map_size (videoUsers room))"
    by (auto simp: join_video_room_def Let_def split: if_splits)
  show ?thesis
    using room free
    by (simp add: join_video_room_def Let_def map_get_set new_participant_def)
qed

text \<open>An accepted join: what it means for the room that was there.\<close>

lemma join_room_accepted:
  assumes r: "map_get (rooms st) rid = Some room"
    and ok: "list_all (\<lambda>x. \<not> is_error (snd x)) (snd (join_room now sid sk rid u b st))"
  shows "\<not> maxUsers (settings room) \<le> int (map_size (users room))"
    and "map_get (rooms (fst (join_room now sid sk rid u b st))) rid =
           Some (room\<lparr>users := map_set sid
                   (new_participant now sid u (b \<or> owner room = sid)) (users room)\<rparr>)"
  using assms
  by (auto simp add: join_room_def Let_def init_room_def map_has_def map_get_set
      split: if_splits)

lemma join_video_room_accepted:
  assumes r: "map_get (rooms st) rid = Some room"
    and ok: "list_all (\<lambda>x. \<not> is_error (snd x)) (snd (join_video_room now sid sk rid u b st))"
  shows "\<not> maxUsers (settings room) \<le> int (map_size (videoUsers room))"
    and "map_get (rooms (fst (join_video_room now sid sk rid u b st))) rid =
           Some (room\<lparr>videoUsers := map_set sid
                   (new_participant now sid u (b \<or> owner room = sid)) (videoUsers room)\<rparr>)"
  using assms
  by (auto simp add: join_video_room_def Let_def init_room_def map_has_def map_get_set
      split: if_splits)

lemma flag_ok_foreign:
  "own \<noteq> sid \<Longrightarrow> \<not> list_all (flag_ok own) (map_set sid (new_participant now sid u True) m)"
proof
  assume ne: "own \<noteq> sid"
    and all: "list_all (flag_ok own) (map_set sid (new_participant now sid u True) m)"
  have "map_get (map_set sid (new_participant now sid u True) m) sid
          = Some (new_participant now sid u True)"
    by (simp add: map_get_set)
  with all have "flag_ok own (sid, new_participant now sid u True)"
    by (rule flag_ok_get)
  with ne show False
    by (auto simp: flag_ok_def new_participant_def)
qed

lemma flags_ok_foreign_join:
  assumes inv: "flags_ok st"
    and foreign: "foreign_owner_join now opn st"
  shows "\<not> flags_ok (fst (step now opn st))"
proof -
  from foreign obtain sid rid b where jr: "join_request opn = Some (sid, rid, b)"
    by (auto simp: foreign_owner_join_def split: option.splits)
  with foreign obtain sk room where b: "b" and sk: "map_get (sockets st) sid = Some sk"
    and r: "map_get (rooms st) rid = Some room" and ne: "owner room \<noteq> sid"
    and ok: "list_all (\<lambda>x. \<not> is_error (snd x)) (snd (step now opn st))"
    by (auto simp: foreign_owner_join_def map_has_def split: option.splits)
  from jr consider u where "opn = Event sid (JoinRoom rid u b)"
    | u where "opn = Event sid (JoinVideoRoom rid u b)"
    by (cases opn rule: join_request.cases) auto
  then show ?thesis
  proof cases
    case 1
    then have h: "step now opn st = join_room now sid sk rid u b st"
      using sk by (simp add: handle_def)
    from join_room_accepted(2) [OF r ok [unfolded h]] b ne
    have g: "map_get (rooms (fst (step now opn st))) rid =
        Some (room\<lparr>users := map_set sid (new_participant now sid u True) (users room)\<rparr>)"
      by (simp add: h)
    show ?thesis
    proof
      assume "flags_ok (fst (step now opn st))"
      then have "flags_ok_room (room\<lparr>users := map_set sid (new_participant now sid u True)
                                    (users room)\<rparr>)"
        using g by (auto simp: flags_ok_def dest: all_rooms_get)
      then show False using flag_ok_foreign [OF ne] by (simp add: flags_ok_room_def)
    qed
  next
    case 2
    then have h: "step now opn st = join_video_room now sid sk rid u b st"
      using sk by (simp add: handle_def)
    from join_video_room_accepted(2) [OF r ok [unfolded h]] b ne
    have g: "map_get (rooms (fst (step now opn st))) rid =
        Some (room\<lparr>videoUsers := map_set sid (new_participant now sid u True)
                                    (videoUsers room)\<rparr>)"
      by (simp add: h)
    show ?thesis
    proof
      assume "flags_ok (fst (step now opn st))"
      then have "flags_ok_room (room\<lparr>videoUsers := map_set sid (new_participant now sid u True)
                                    (videoUsers room)\<rparr>)"
        using g by (auto simp: flags_ok_def dest: all_rooms_get)
      then show False using flag_ok_foreign [OF ne] by (simp add: flags_ok_room_def)
    qed
  qed
qed


lemma join_room_refused:
  assumes r: "map_get (rooms st) rid = Some room"
    and no: "\<not> list_all (\<lambda>x. \<not> is_error (snd x)) (snd (join_room now sid sk rid u b st))"
  shows "rooms (fst (join_room now sid sk rid u b st)) = rooms st"
  using assms
  by (auto simp add: join_room_def Let_def init_room_def map_has_def split: if_splits)

lemma join_video_room_refused:
  assumes r: "map_get (rooms st) rid = Some room"
    and no: "\<not> list_all (\<lambda>x. \<not> is_error (snd x)) (snd (join_video_room now sid sk rid u b st))"
  shows "rooms (fst (join_video_room now sid sk rid u b st)) = rooms st"
  using assms
  by (auto simp add: join_video_room_def Let_def init_room_def map_has_def split: if_splits)

lemma flags_ok_rooms: "rooms st' = rooms st \<Longrightarrow> flags_ok st' = flags_ok st"
  by (simp add: flags_ok_def all_rooms_def)

lemma flags_ok_step_unless:
  assumes inv: "flags_ok st"
    and nf: "\<not> foreign_owner_join now opn st"
  shows "flags_ok (fst (step now opn st))"
proof (cases "join_request opn")
  case None
  then have "\<forall>sid rid u b. opn = Event sid (JoinRoom rid u b) \<or>
                  opn = Event sid (JoinVideoRoom rid u b) \<longrightarrow> \<not> b"
    by auto
  with inv show ?thesis by (rule flags_ok_step_aux)
next
  case (Some t)
  obtain sid rid b where t: "t = (sid, rid, b)" by (cases t)
  show ?thesis
  proof (cases "map_get (sockets st) sid")
    case None
    with Some t have "step now opn st = (st, [])"
      by (cases opn rule: join_request.cases) (auto simp: handle_def)
    with inv show ?thesis by simp
  next
    case sk: (Some sk)
    from Some t consider u where "opn = Event sid (JoinRoom rid u b)"
      | u where "opn = Event sid (JoinVideoRoom rid u b)"
      by (cases opn rule: join_request.cases) auto
    then show ?thesis
    proof cases
      case 1
      then have h: "step now opn st = join_room now sid sk rid u b st"
        using sk by (simp add: handle_def)
      show ?thesis
      proof (cases "b \<and> (\<exists>room. map_get (rooms st) rid = Some room \<and> owner room \<noteq> sid)")
        case False
        then show ?thesis unfolding h using inv by (intro flags_ok_join_room) auto
      next
        case True
        then obtain room where r: "map_get (rooms st) rid = Some room" and ne: "owner room \<noteq> sid"
          by auto
        from nf True r ne sk Some t
        have "\<not> list_all (\<lambda>x. \<not> is_error (snd x)) (snd (join_room now sid sk rid u b st))"
          by (simp add: foreign_owner_join_def map_has_def h)
        from join_room_refused [OF r this]
        have "flags_ok (fst (join_room now sid sk rid u b st)) = flags_ok st"
          by (rule flags_ok_rooms)
        with inv show ?thesis unfolding h by simp
      qed
    next
      case 2
      then have h: "step now opn st = join_video_room now sid sk rid u b st"
        using sk by (simp add: handle_def)
      show ?thesis
      proof (cases "b \<and> (\<exists>room. map_get (rooms st) rid = Some room \<and> owner room \<noteq> sid)")
        case False
        then show ?thesis unfolding h using inv by (intro flags_ok_join_video_room) auto
      next
        case True
        then obtain room where r: "map_get (rooms st) rid = Some room" and ne: "owner room \<noteq> sid"
          by auto
        from nf True r ne sk Some t
        have "\<not> list_all (\<lambda>x. \<not> is_error (snd x)) (snd (join_video_room now sid sk rid u b st))"
          by (simp add: foreign_owner_join_def map_has_def h)
        from join_video_room_refused [OF r this]
        have "flags_ok (fst (join_video_room now sid sk rid u b st)) = flags_ok st"
          by (rule flags_ok_rooms)
        with inv show ?thesis unfolding h by simp
      qed
    qed
  qed
qed

text \<open>
  C2. From a state in which the stored \<open>isOwner\<close> of every entry of both rosters equals
  the comparison of the entry's id with the room's owner, the same holds after an
  operation exactly when the operation is not an accepted join that supplies
  \<open>isOwner = true\<close> for an existing room owned by another id. A join that is accepted
  stores \<open>isOwner\<close> as the supplied value or the comparison, in the general roster
  (\<open>join-room\<close>) and in the video roster (\<open>join-video-room\<close>) alike.
\<close>

theorem owner_flag_step:
  "(flags_ok st \<longrightarrow> flags_ok (fst (step now opn st)) = (\<not> foreign_owner_join now opn st))
   \<and> (map_get (sockets st) sid = Some sk \<longrightarrow>
      (\<forall>x \<in> set (snd (handle now sid (JoinRoom rid u b) st)). \<not> is_error (snd x)) \<longrightarrow>
      (\<exists>room' p. map_get (rooms (fst (handle now sid (JoinRoom rid u b) st))) rid = Some room'
           \<and> map_get (users room') sid = Some p
           \<and> isOwner p = (b \<or> owner room' = sid)))
   \<and> (map_get (sockets st) sid = Some sk \<longrightarrow>
      (\<forall>x \<in> set (snd (handle now sid (JoinVideoRoom rid u b) st)). \<not> is_error (snd x)) \<longrightarrow>
      (\<exists>room' p. map_get (rooms (fst (handle now sid (JoinVideoRoom rid u b) st))) rid = Some room'
           \<and> map_get (videoUsers room') sid = Some p
           \<and> isOwner p = (b \<or> owner room' = sid)))"
proof (intro conjI impI)
  assume inv: "flags_ok st"
  show "flags_ok (fst (step now opn st)) = (\<not> foreign_owner_join now opn st)"
    using flags_ok_step_unless [OF inv] flags_ok_foreign_join [OF inv] by blast
next
  assume sk: "map_get (sockets st) sid = Some sk"
    and ok: "\<forall>x \<in> set (snd (handle now sid (JoinRoom rid u b) st)). \<not> is_error (snd x)"
  from sk have h: "handle now sid (JoinRoom rid u b) st = join_room now sid sk rid u b st"
    by (simp add: handle_def)
  from ok show "\<exists>room' p. map_get (rooms (fst (handle now sid (JoinRoom rid u b) st))) rid = Some room'
           \<and> map_get (users room') sid = Some p \<and> isOwner p = (b \<or> owner room' = sid)"
    unfolding h by (rule join_room_stores)
next
  assume sk: "map_get (sockets st) sid = Some sk"
    and ok: "\<forall>x \<in> set (snd (handle now sid (JoinVideoRoom rid u b) st)). \<not> is_error (snd x)"
  from sk have h: "handle now sid (JoinVideoRoom rid u b) st = join_video_room now sid sk rid u b st"
    by (simp add: handle_def)
  from ok show "\<exists>room' p. map_get (rooms (fst (handle now sid (JoinVideoRoom rid u b) st))) rid = Some room'
           \<and> map_get (videoUsers room') sid = Some p \<and> isOwner p = (b \<or> owner room' = sid)"
    unfolding h by (rule join_video_room_stores)
qed

theorem owner_flag_step_witness:
  "flags_ok waiting_state
   \<and> flags_ok (fst (step 1 (Event ''B'' (JoinRoom ''r1'' ''bob'' False)) waiting_state))
   \<and> flags_ok (fst (step 1 (Event ''A'' (JoinRoom ''r1'' ''ann'' True)) waiting_state))
   \<and> flags_ok (fst (step 1 (Event ''A'' (JoinVideoRoom ''r1'' ''ann'' True)) waiting_state))
   \<and> flags_ok (fst (step 1 (Event ''B'' (JoinRoom ''r2'' ''bob'' True)) waiting_state))
   \<and> flags_ok (fst (step 1 (Event ''B'' (JoinRoom ''r1'' ''bob'' True)) full_room_state))
   \<and> \<not> flags_ok (fst (step 1 (Event ''B'' (JoinVideoRoom ''r1'' ''bob'' True)) waiting_state))
   \<and> (\<exists>room' p. map_get (rooms (fst (handle 1 ''B'' (JoinRoom ''r1'' ''bob'' True) waiting_state)))
                    ''r1'' = Some room'
         \<and> map_get (users room') ''B'' = Some p \<and> isOwner p \<and> owner room' \<noteq> ''B'')
   \<and> (\<exists>room' p. map_get (rooms (fst (handle 1 ''B'' (JoinVideoRoom ''r1'' ''bob'' True) waiting_state)))
                    ''r1'' = Some room'
         \<and> map_get (videoUsers room') ''B'' = Some p \<and> isOwner p \<and> owner room' \<noteq> ''B'')"
proof -
  have i: "flags_ok waiting_state"
    by (simp add: waiting_state_eq inv_defs room_of_def ann_def)
  have i2: "flags_ok full_room_state"
    by (simp add: full_room_state_eq inv_defs room_of_def ann_def)
  have n1: "\<not> foreign_owner_join 1 (Event ''B'' (JoinRoom ''r1'' ''bob'' False)) waiting_state"
    by (simp add: foreign_owner_join_def)
  have n2: "\<not> foreign_owner_join 1 (Event ''A'' (JoinRoom ''r1'' ''ann'' True)) waiting_state"
    by (simp add: foreign_owner_join_def waiting_state_eq room_of_def)
  have n3: "\<not> foreign_owner_join 1 (Event ''A'' (JoinVideoRoom ''r1'' ''ann'' True)) waiting_state"
    by (simp add: foreign_owner_join_def waiting_state_eq room_of_def)
  have n4: "\<not> foreign_owner_join 1 (Event ''B'' (JoinRoom ''r2'' ''bob'' True)) waiting_state"
    by (simp add: foreign_owner_join_def waiting_state_eq)
  have n5: "\<not> foreign_owner_join 1 (Event ''B'' (JoinRoom ''r1'' ''bob'' True)) full_room_state"
    by (simp add: foreign_owner_join_def full_room_state_eq handler_defs idle_socket_def
        room_of_def)
  have f: "foreign_owner_join 1 (Event ''B'' (JoinVideoRoom ''r1'' ''bob'' True)) waiting_state"
    by (simp add: foreign_owner_join_def waiting_state_eq handler_defs idle_socket_def
        room_of_def)
  have s: "map_get (sockets waiting_state) ''B'' = Some (idle_socket ''B'')"
    by (simp add: waiting_state_eq)
  have e1: "\<forall>x \<in> set (snd (handle 1 ''B'' (JoinRoom ''r1'' ''bob'' True) waiting_state)).
              \<not> is_error (snd x)"
    by (simp add: waiting_state_eq handler_defs idle_socket_def room_of_def)
  have e2: "\<forall>x \<in> set (snd (handle 1 ''B'' (JoinVideoRoom ''r1'' ''bob'' True) waiting_state)).
              \<not> is_error (snd x)"
    by (simp add: waiting_state_eq handler_defs idle_socket_def room_of_def)
  have o1: "\<forall>room'. map_get (rooms (fst (handle 1 ''B'' (JoinRoom ''r1'' ''bob'' True) waiting_state)))
                    ''r1'' = Some room' \<longrightarrow> owner room' \<noteq> ''B''"
    by (simp add: waiting_state_eq handler_defs idle_socket_def room_of_def)
  have o2: "\<forall>room'. map_get (rooms (fst (handle 1 ''B'' (JoinVideoRoom ''r1'' ''bob'' True) waiting_state)))
                    ''r1'' = Some room' \<longrightarrow> owner room' \<noteq> ''B''"
    by (simp add: waiting_state_eq handler_defs idle_socket_def room_of_def)
  have a1: "flags_ok (fst (step 1 (Event ''B'' (JoinRoom ''r1'' ''bob'' False)) waiting_state))"
    using owner_flag_step [of waiting_state 1 "Event ''B'' (JoinRoom ''r1'' ''bob'' False)"] i n1
    by blast
  have a2: "flags_ok (fst (step 1 (Event ''A'' (JoinRoom ''r1'' ''ann'' True)) waiting_state))"
    using owner_flag_step [of waiting_state 1 "Event ''A'' (JoinRoom ''r1'' ''ann'' True)"] i n2
    by blast
  have a3: "flags_ok (fst (step 1 (Event ''A'' (JoinVideoRoom ''r1'' ''ann'' True)) waiting_state))"
    using owner_flag_step [of waiting_state 1 "Event ''A'' (JoinVideoRoom ''r1'' ''ann'' True)"] i n3
    by blast
  have a4: "flags_ok (fst (step 1 (Event ''B'' (JoinRoom ''r2'' ''bob'' True)) waiting_state))"
    using owner_flag_step [of waiting_state 1 "Event ''B'' (JoinRoom ''r2'' ''bob'' True)"] i n4
    by blast
  have a5: "flags_ok (fst (step 1 (Event ''B'' (JoinRoom ''r1'' ''bob'' True)) full_room_state))"
    using owner_flag_step [of full_room_state 1 "Event ''B'' (JoinRoom ''r1'' ''bob'' True)"] i2 n5
    by blast
  have a6: "\<not> flags_ok (fst (step 1 (Event ''B'' (JoinVideoRoom ''r1'' ''bob'' True)) waiting_state))"
    using owner_flag_step [of waiting_state 1 "Event ''B'' (JoinVideoRoom ''r1'' ''bob'' True)"] i f
    by blast
  from owner_flag_step [of waiting_state 1 "Event ''B'' (JoinRoom ''r1'' ''bob'' False)"
      "''B''" "idle_socket ''B''" "''r1''" "''bob''" True] s e1 e2 o1 o2
  have st: "(\<exists>room' p. map_get (rooms (fst (handle 1 ''B'' (JoinRoom ''r1'' ''bob'' True) waiting_state)))
                    ''r1'' = Some room'
         \<and> map_get (users room') ''B'' = Some p \<and> isOwner p \<and> owner room' \<noteq> ''B'')
   \<and> (\<exists>room' p. map_get (rooms (fst (handle 1 ''B'' (JoinVideoRoom ''r1'' ''bob'' True) waiting_state)))
                    ''r1'' = Some room'
         \<and> map_get (videoUsers room') ''B'' = Some p \<and> isOwner p \<and> owner room' \<noteq> ''B'')"
    by blast
  from i a1 a2 a3 a4 a5 a6 st show ?thesis by blast
qed

text \<open>
  C2 as stated fails on such a join: \<open>B\<close> joins the room that \<open>A\<close> owns, supplies
  \<open>isOwner = true\<close>, and is stored as an owner.
\<close>

theorem owner_flag_counterexample:
  "flags_ok waiting_state
   \<and> map_get (rooms (fst (step 1 (Event ''B'' (JoinRoom ''r1'' ''bob'' True)) waiting_state))) ''r1''
       = Some (room_of [] [] [(''A'', ann),
                 (''B'', bob\<lparr>joinedAt := 1, isOwner := True, lastSeen := 1\<rparr>)] 50)
   \<and> owner (room_of [] [] [(''A'', ann),
                 (''B'', bob\<lparr>joinedAt := 1, isOwner := True, lastSeen := 1\<rparr>)] 50) = ''A''
   \<and> \<not> flags_ok (fst (step 1 (Event ''B'' (JoinRoom ''r1'' ''bob'' True)) waiting_state))"
  by (simp add: waiting_state_eq inv_defs handler_defs idle_socket_def
      joined_socket_def room_of_def ann_def bob_def)

end
